theory Spec2Isabelle
  imports Main
begin

section \<open>T-SQL values and string functions\<close>

text \<open>
  The rule engine of the task manager is a set of SQL Server stored procedures
  (\<^verbatim>\<open>spTaskCreate\<close>, \<^verbatim>\<open>spTaskGet\<close>, \<^verbatim>\<open>spTaskUpdate\<close>, \<^verbatim>\<open>spTaskList\<close>,
  \<^verbatim>\<open>spTaskDelete\<close>) over the table \<^verbatim>\<open>[functional].[task]\<close>.  A character string is a
  list of code units.  \<^verbatim>\<open>LTRIM\<close> and \<^verbatim>\<open>RTRIM\<close> remove spaces, \<^verbatim>\<open>LEN\<close> does not count
  trailing spaces, and the comparison \<^verbatim>\<open>=\<close> of two strings ignores trailing spaces
  (code units are compared exactly: the sources set no collation).
  A \<^verbatim>\<open>DATETIME2\<close> is a number of seconds, a \<^verbatim>\<open>DATE\<close> a number of days.
\<close>

definition LTRIM :: "string \<Rightarrow> string" where
  "LTRIM s = dropWhile (\<lambda>c. c = CHR '' '') s"

definition RTRIM :: "string \<Rightarrow> string" where
  "RTRIM s = rev (dropWhile (\<lambda>c. c = CHR '' '') (rev s))"

definition LEN :: "string \<Rightarrow> nat" where
  "LEN s = length (RTRIM s)"

definition strEq :: "string \<Rightarrow> string \<Rightarrow> bool" where
  "strEq a b = (RTRIM a = RTRIM b)"

definition CAST_DATE :: "int \<Rightarrow> int" where
  "CAST_DATE t = t div 86400"

text \<open>A value of a result set, and a row of one: the column names with their values.\<close>

datatype sqlValue = SqlNull | SqlInt int | SqlText string | SqlDate int | SqlDateTime int

type_synonym row = "(string \<times> sqlValue) list"

section \<open>The task store (\<^verbatim>\<open>_structure.sql\<close>)\<close>

record task =
  idTask :: int
  idAccount :: int
  idUser :: int
  title :: string
  description :: string
  priority :: nat
  dueDate :: "int option"
  status :: nat
  dateCreated :: int
  dateModified :: int
  deleted :: bool

text \<open>
  The tables \<^verbatim>\<open>[subscription].[account]\<close> and \<^verbatim>\<open>[security].[user]\<close> are declared outside
  the sources; the procedures read only \<^verbatim>\<open>idAccount\<close> of the first and
  \<^verbatim>\<open>(idUser, idAccount)\<close> of the second, so the store keeps these columns.
  \<^verbatim>\<open>identTask\<close> is the last value the \<^verbatim>\<open>IDENTITY(1, 1)\<close> column \<^verbatim>\<open>idTask\<close> generated.
\<close>

record database =
  tblAccount :: "int list"
  tblUser :: "(int \<times> int) list"
  tblTask :: "task list"
  identTask :: int

text \<open>The constraints and the filtered unique index of the table, as predicates on a row.\<close>

definition chkTask_Priority :: "task \<Rightarrow> bool" where
  "chkTask_Priority r = (0 \<le> priority r \<and> priority r \<le> 2)"

definition chkTask_Status :: "task \<Rightarrow> bool" where
  "chkTask_Status r = (0 \<le> status r \<and> status r \<le> 1)"

definition fkTask_Account :: "database \<Rightarrow> task \<Rightarrow> bool" where
  "fkTask_Account db r = (idAccount r \<in> set (tblAccount db))"

definition fkTask_User :: "database \<Rightarrow> task \<Rightarrow> bool" where
  "fkTask_User db r = (idUser r \<in> fst ` set (tblUser db))"

text \<open>
  \<^verbatim>\<open>pkTask\<close>: no other row has the key of \<open>r\<close>.  \<^verbatim>\<open>uqTask_Account_User_Title\<close> is declared
  \<^verbatim>\<open>WHERE [deleted] = 0\<close>: a deleted row is not in the index, and a row that is in it
  conflicts with another row of the index (a row with another primary key) that has the
  same account, user and title.
\<close>

definition pkTask_conflict :: "task list \<Rightarrow> task \<Rightarrow> bool" where
  "pkTask_conflict rows r = (\<exists>t \<in> set rows. idTask t = idTask r)"

definition uqTask_Account_User_Title_conflict :: "task list \<Rightarrow> task \<Rightarrow> bool" where
  "uqTask_Account_User_Title_conflict rows r =
     (\<not> deleted r \<and>
      (\<exists>t \<in> set rows. idTask t \<noteq> idTask r \<and> \<not> deleted t \<and> idAccount t = idAccount r \<and>
         idUser t = idUser r \<and> strEq (title t) (title r)))"

section \<open>Errors, sessions and statements\<close>

datatype errorKind =
    titleRequired | titleExceedsMaxLength | descriptionExceedsMaxLength | invalidPriority
  | invalidStatus | dueDateInPast | accountDoesntExist | userDoesntExist | taskDoesntExist
  | titleAlreadyExists

text \<open>
  An error of the engine: \<^verbatim>\<open>THROW 51000, '<kind>', 1\<close> of a procedure, or an error a
  statement raises itself (515: a NULL in a NOT NULL column, 547: a CHECK or FOREIGN KEY
  conflict, 2601: a duplicate key of a unique index, 2627: a duplicate primary key,
  3903: ROLLBACK without a transaction).
\<close>

datatype sqlError =
    RuleError errorKind
  | CannotInsertNull
  | ConstraintConflict
  | DuplicateKey
  | PrimaryKeyViolation
  | NoTransaction

fun errorNumber :: "sqlError \<Rightarrow> nat" where
  "errorNumber (RuleError k) = 51000"
| "errorNumber CannotInsertNull = 515"
| "errorNumber ConstraintConflict = 547"
| "errorNumber DuplicateKey = 2601"
| "errorNumber PrimaryKeyViolation = 2627"
| "errorNumber NoTransaction = 3903"

fun kindName :: "errorKind \<Rightarrow> string" where
  "kindName titleRequired = ''titleRequired''"
| "kindName titleExceedsMaxLength = ''titleExceedsMaxLength''"
| "kindName descriptionExceedsMaxLength = ''descriptionExceedsMaxLength''"
| "kindName invalidPriority = ''invalidPriority''"
| "kindName invalidStatus = ''invalidStatus''"
| "kindName dueDateInPast = ''dueDateInPast''"
| "kindName accountDoesntExist = ''accountDoesntExist''"
| "kindName userDoesntExist = ''userDoesntExist''"
| "kindName taskDoesntExist = ''taskDoesntExist''"
| "kindName titleAlreadyExists = ''titleAlreadyExists''"

fun errorMessage :: "sqlError \<Rightarrow> string" where
  "errorMessage (RuleError k) = kindName k"
| "errorMessage CannotInsertNull = ''Cannot insert the value NULL''"
| "errorMessage ConstraintConflict = ''The statement conflicted with a constraint''"
| "errorMessage DuplicateKey = ''Cannot insert duplicate key row''"
| "errorMessage PrimaryKeyViolation = ''Violation of PRIMARY KEY constraint''"
| "errorMessage NoTransaction = ''The ROLLBACK TRANSACTION request has no corresponding BEGIN TRANSACTION''"

text \<open>
  A session runs one procedure call.  \<open>tables\<close> is what the statements read and write;
  \<open>saved\<close> holds the rows as they were at the outermost \<^verbatim>\<open>BEGIN TRAN\<close> while a
  transaction is open (\<open>trancount\<close> is \<^verbatim>\<open>@@TRANCOUNT\<close>); \<open>tranlog\<close> records the
  transaction statements the session has executed, oldest first; \<open>scopeIdentity\<close> is
  \<^verbatim>\<open>SCOPE_IDENTITY()\<close>; \<open>recordsets\<close> are the result sets sent to the caller.
\<close>

datatype tranEvent = BeginTran | CommitTran | RollbackTran

record session =
  tables :: database
  trancount :: nat
  saved :: "database option"
  tranlog :: "tranEvent list"
  scopeIdentity :: "int option"
  recordsets :: "row list list"

text \<open>
  A statement ends normally in a new session, or raises an error in the session the
  error was raised in (the state a \<^verbatim>\<open>CATCH\<close> block continues from).
\<close>

type_synonym outcome = "(sqlError \<times> session) + session"

type_synonym stmt = "session \<Rightarrow> outcome"

fun block :: "stmt list \<Rightarrow> stmt" where
  "block [] s = Inr s"
| "block (c # cs) s = (case c s of Inl x \<Rightarrow> Inl x | Inr s' \<Rightarrow> block cs s')"

definition IF :: "(session \<Rightarrow> bool) \<Rightarrow> stmt \<Rightarrow> stmt" where
  "IF b c s = (if b s then c s else Inr s)"

definition THROW :: "errorKind \<Rightarrow> stmt" where
  "THROW k s = Inl (RuleError k, s)"

definition RETHROW :: "sqlError \<Rightarrow> stmt" where
  "RETHROW e s = Inl (e, s)"

definition TRY_CATCH :: "stmt \<Rightarrow> (sqlError \<Rightarrow> stmt) \<Rightarrow> stmt" where
  "TRY_CATCH body handler s = (case body s of Inl (e, s') \<Rightarrow> handler e s' | Inr s' \<Rightarrow> Inr s')"

definition BEGIN_TRAN :: stmt where
  "BEGIN_TRAN s =
     Inr (s\<lparr>saved := (if trancount s = 0 then Some (tables s) else saved s),
            trancount := trancount s + 1,
            tranlog := tranlog s @ [BeginTran]\<rparr>)"

definition COMMIT_TRAN :: stmt where
  "COMMIT_TRAN s =
     (if trancount s = 0 then Inl (NoTransaction, s)
      else Inr (s\<lparr>saved := (if trancount s = 1 then None else saved s),
                  trancount := trancount s - 1,
                  tranlog := tranlog s @ [CommitTran]\<rparr>))"

text \<open>
  \<^verbatim>\<open>ROLLBACK TRAN\<close> restores the rows of the outermost \<^verbatim>\<open>BEGIN TRAN\<close>; the identity
  counter is not transactional and keeps its value.
\<close>

definition ROLLBACK_TRAN :: stmt where
  "ROLLBACK_TRAN s =
     (case saved s of
        None \<Rightarrow> Inl (NoTransaction, s)
      | Some db \<Rightarrow>
          Inr (s\<lparr>tables := db\<lparr>identTask := identTask (tables s)\<rparr>,
                 saved := None,
                 trancount := 0,
                 tranlog := tranlog s @ [RollbackTran]\<rparr>))"

section \<open>The predicates of the validations\<close>

text \<open>
  A parameter is \<open>None\<close> when the caller passes \<^verbatim>\<open>NULL\<close>.  A comparison with \<^verbatim>\<open>NULL\<close> is
  not true, so a row is selected only when the parameter has a value and the column
  equals it.
\<close>

definition accountExists :: "database \<Rightarrow> int option \<Rightarrow> bool" where
  "accountExists db a = (\<exists>acc \<in> set (tblAccount db). Some acc = a)"

definition userExists :: "database \<Rightarrow> int option \<Rightarrow> int option \<Rightarrow> bool" where
  "userExists db u a = (\<exists>usr \<in> set (tblUser db). Some (fst usr) = u \<and> Some (snd usr) = a)"

definition ownTask :: "int option \<Rightarrow> int option \<Rightarrow> int option \<Rightarrow> task \<Rightarrow> bool" where
  "ownTask i a u t =
     (Some (idTask t) = i \<and> Some (idAccount t) = a \<and> Some (idUser t) = u \<and> \<not> deleted t)"

definition taskExists :: "database \<Rightarrow> int option \<Rightarrow> int option \<Rightarrow> int option \<Rightarrow> bool" where
  "taskExists db i a u = (\<exists>t \<in> set (tblTask db). ownTask i a u t)"

definition sameTitle :: "string \<Rightarrow> string option \<Rightarrow> bool" where
  "sameTitle col par = (case par of None \<Rightarrow> False | Some x \<Rightarrow> strEq col x)"

definition titleTaken :: "database \<Rightarrow> int option \<Rightarrow> int option \<Rightarrow> string option \<Rightarrow> bool" where
  "titleTaken db a u ttl =
     (\<exists>t \<in> set (tblTask db). Some (idAccount t) = a \<and> Some (idUser t) = u \<and>
        sameTitle (title t) ttl \<and> \<not> deleted t)"

section \<open>\<^verbatim>\<open>spTaskCreate\<close>\<close>

text \<open>
  The parameters of the procedure, as the body reads them: the values after the engine
  has converted the arguments to the declared types (\<^verbatim>\<open>INTEGER\<close>, \<^verbatim>\<open>NVARCHAR(100)\<close>,
  \<^verbatim>\<open>NVARCHAR(500)\<close>, \<^verbatim>\<open>TINYINT\<close>, \<^verbatim>\<open>DATE\<close>).  The caller of the repository
  (\<^verbatim>\<open>taskCreate\<close>) passes every parameter, so no default applies.
\<close>

record createParams =
  c_idAccount :: "int option"
  c_idUser :: "int option"
  c_title :: "string option"
  c_description :: "string option"
  c_priority :: "nat option"
  c_dueDate :: "int option"

text \<open>
  The \<^verbatim>\<open>INSERT\<close> of the procedure.  A NULL in a NOT NULL column fails before a row is
  formed; then \<^verbatim>\<open>idTask\<close> is generated (the counter moves even when the statement fails
  later), \<^verbatim>\<open>status\<close> is 0, both dates are \<^verbatim>\<open>GETUTCDATE()\<close>, \<^verbatim>\<open>deleted\<close> takes its default 0,
  and the row is checked against the constraints and the unique index of the table.
\<close>

definition INSERT_task :: "int \<Rightarrow> createParams \<Rightarrow> stmt" where
  "INSERT_task now p s =
     (if c_idAccount p = None \<or> c_idUser p = None \<or> c_title p = None \<or>
         c_description p = None \<or> c_priority p = None
      then Inl (CannotInsertNull, s)
      else
        let db = (tables s)\<lparr>identTask := identTask (tables s) + 1\<rparr>;
            s1 = s\<lparr>tables := db\<rparr>;
            r = \<lparr>idTask = identTask db,
                 idAccount = the (c_idAccount p),
                 idUser = the (c_idUser p),
                 title = the (c_title p),
                 description = the (c_description p),
                 priority = the (c_priority p),
                 dueDate = c_dueDate p,
                 status = 0,
                 dateCreated = now,
                 dateModified = now,
                 deleted = False\<rparr>
        in if \<not> (chkTask_Priority r \<and> chkTask_Status r) then Inl (ConstraintConflict, s1)
           else if pkTask_conflict (tblTask db) r then Inl (PrimaryKeyViolation, s1)
           else if uqTask_Account_User_Title_conflict (tblTask db) r then Inl (DuplicateKey, s1)
           else if \<not> (fkTask_Account db r \<and> fkTask_User db r) then Inl (ConstraintConflict, s1)
           else Inr (s1\<lparr>tables := db\<lparr>tblTask := tblTask db @ [r]\<rparr>,
                        scopeIdentity := Some (idTask r)\<rparr>))"

text \<open>\<^verbatim>\<open>SELECT @idTask AS [idTask]\<close>: a result set of one row with one column.\<close>

definition SELECT_idTask :: "(session \<Rightarrow> int option) \<Rightarrow> stmt" where
  "SELECT_idTask v s =
     Inr (s\<lparr>recordsets := recordsets s @
            [[[(''idTask'', case v s of None \<Rightarrow> SqlNull | Some i \<Rightarrow> SqlInt i)]]]\<rparr>)"

definition spTaskCreate :: "int \<Rightarrow> createParams \<Rightarrow> stmt" where
  "spTaskCreate now p = block
     [IF (\<lambda>s. case c_title p of None \<Rightarrow> True | Some t \<Rightarrow> strEq (LTRIM (RTRIM t)) [])
        (THROW titleRequired),
      IF (\<lambda>s. case c_title p of None \<Rightarrow> False | Some t \<Rightarrow> LEN t > 100)
        (THROW titleExceedsMaxLength),
      IF (\<lambda>s. case c_description p of None \<Rightarrow> False | Some d \<Rightarrow> LEN d > 500)
        (THROW descriptionExceedsMaxLength),
      IF (\<lambda>s. case c_priority p of None \<Rightarrow> False | Some n \<Rightarrow> \<not> (0 \<le> n \<and> n \<le> 2))
        (THROW invalidPriority),
      IF (\<lambda>s. case c_dueDate p of None \<Rightarrow> False | Some d \<Rightarrow> d < CAST_DATE now)
        (THROW dueDateInPast),
      IF (\<lambda>s. \<not> accountExists (tables s) (c_idAccount p))
        (THROW accountDoesntExist),
      IF (\<lambda>s. \<not> userExists (tables s) (c_idUser p) (c_idAccount p))
        (THROW userDoesntExist),
      IF (\<lambda>s. titleTaken (tables s) (c_idAccount p) (c_idUser p) (c_title p))
        (THROW titleAlreadyExists),
      TRY_CATCH
        (block [BEGIN_TRAN, INSERT_task now p, SELECT_idTask scopeIdentity, COMMIT_TRAN])
        (\<lambda>e. block [ROLLBACK_TRAN, RETHROW e])]"

section \<open>\<^verbatim>\<open>spTaskGet\<close> and \<^verbatim>\<open>spTaskDelete\<close>\<close>

record keyParams =
  k_idAccount :: "int option"
  k_idUser :: "int option"
  k_idTask :: "int option"

text \<open>The select list of \<^verbatim>\<open>spTaskGet\<close> and \<^verbatim>\<open>spTaskList\<close>: eight columns of the row.\<close>

definition taskColumns :: "task \<Rightarrow> row" where
  "taskColumns t =
     [(''idTask'', SqlInt (idTask t)),
      (''title'', SqlText (title t)),
      (''description'', SqlText (description t)),
      (''priority'', SqlInt (int (priority t))),
      (''dueDate'', case dueDate t of None \<Rightarrow> SqlNull | Some d \<Rightarrow> SqlDate d),
      (''status'', SqlInt (int (status t))),
      (''dateCreated'', SqlDateTime (dateCreated t)),
      (''dateModified'', SqlDateTime (dateModified t))]"

definition SELECT_tasks :: "(database \<Rightarrow> task list) \<Rightarrow> stmt" where
  "SELECT_tasks q s = Inr (s\<lparr>recordsets := recordsets s @ [map taskColumns (q (tables s))]\<rparr>)"

definition spTaskGet :: "keyParams \<Rightarrow> stmt" where
  "spTaskGet p = block
     [IF (\<lambda>s. \<not> accountExists (tables s) (k_idAccount p))
        (THROW accountDoesntExist),
      IF (\<lambda>s. \<not> userExists (tables s) (k_idUser p) (k_idAccount p))
        (THROW userDoesntExist),
      IF (\<lambda>s. \<not> taskExists (tables s) (k_idTask p) (k_idAccount p) (k_idUser p))
        (THROW taskDoesntExist),
      SELECT_tasks (\<lambda>db. filter (ownTask (k_idTask p) (k_idAccount p) (k_idUser p)) (tblTask db))]"

text \<open>
  The \<^verbatim>\<open>UPDATE\<close> of \<^verbatim>\<open>spTaskDelete\<close> sets the flag and the modification date of the rows
  it selects.  A row that leaves the filtered unique index cannot conflict, and no other
  constraint reads the two columns.
\<close>

definition UPDATE_deleted :: "int \<Rightarrow> keyParams \<Rightarrow> stmt" where
  "UPDATE_deleted now p s =
     Inr (s\<lparr>tables := (tables s)\<lparr>tblTask :=
            map (\<lambda>t. if ownTask (k_idTask p) (k_idAccount p) (k_idUser p) t
                      then t\<lparr>deleted := True, dateModified := now\<rparr> else t)
              (tblTask (tables s))\<rparr>\<rparr>)"

definition spTaskDelete :: "int \<Rightarrow> keyParams \<Rightarrow> stmt" where
  "spTaskDelete now p = block
     [IF (\<lambda>s. \<not> accountExists (tables s) (k_idAccount p))
        (THROW accountDoesntExist),
      IF (\<lambda>s. \<not> userExists (tables s) (k_idUser p) (k_idAccount p))
        (THROW userDoesntExist),
      IF (\<lambda>s. \<not> taskExists (tables s) (k_idTask p) (k_idAccount p) (k_idUser p))
        (THROW taskDoesntExist),
      TRY_CATCH
        (block [BEGIN_TRAN, UPDATE_deleted now p, SELECT_idTask (\<lambda>s. k_idTask p), COMMIT_TRAN])
        (\<lambda>e. block [ROLLBACK_TRAN, RETHROW e])]"

section \<open>\<^verbatim>\<open>spTaskUpdate\<close>\<close>

record updateParams =
  u_idAccount :: "int option"
  u_idUser :: "int option"
  u_idTask :: "int option"
  u_title :: "string option"
  u_description :: "string option"
  u_priority :: "nat option"
  u_dueDate :: "int option"
  u_status :: "nat option"

definition titleTakenByOther ::
  "database \<Rightarrow> int option \<Rightarrow> int option \<Rightarrow> string option \<Rightarrow> int option \<Rightarrow> bool" where
  "titleTakenByOther db a u ttl i =
     (\<exists>t \<in> set (tblTask db). Some (idAccount t) = a \<and> Some (idUser t) = u \<and>
        sameTitle (title t) ttl \<and> (case i of None \<Rightarrow> False | Some j \<Rightarrow> idTask t \<noteq> j) \<and>
        \<not> deleted t)"

text \<open>
  The \<^verbatim>\<open>UPDATE\<close> of the procedure replaces six columns of the rows it selects.  When it
  selects no row nothing is checked.  Otherwise a NULL for a NOT NULL column fails, then
  the new rows are checked against the CHECK constraints and the unique index.
\<close>

definition UPDATE_task :: "int \<Rightarrow> updateParams \<Rightarrow> stmt" where
  "UPDATE_task now p s =
     (let hit = ownTask (u_idTask p) (u_idAccount p) (u_idUser p);
          upd = (\<lambda>t. t\<lparr>title := the (u_title p),
                        description := the (u_description p),
                        priority := the (u_priority p),
                        dueDate := u_dueDate p,
                        status := the (u_status p),
                        dateModified := now\<rparr>);
          rows = map (\<lambda>t. if hit t then upd t else t) (tblTask (tables s))
      in if \<not> (\<exists>t \<in> set (tblTask (tables s)). hit t) then Inr s
         else if u_title p = None \<or> u_description p = None \<or> u_priority p = None \<or>
                 u_status p = None
           then Inl (CannotInsertNull, s)
         else if \<exists>t \<in> set (tblTask (tables s)).
                   hit t \<and> \<not> (chkTask_Priority (upd t) \<and> chkTask_Status (upd t))
           then Inl (ConstraintConflict, s)
         else if \<exists>t \<in> set (tblTask (tables s)).
                   hit t \<and> uqTask_Account_User_Title_conflict rows (upd t)
           then Inl (DuplicateKey, s)
         else Inr (s\<lparr>tables := (tables s)\<lparr>tblTask := rows\<rparr>\<rparr>))"

definition spTaskUpdate :: "int \<Rightarrow> updateParams \<Rightarrow> stmt" where
  "spTaskUpdate now p = block
     [IF (\<lambda>s. case u_title p of None \<Rightarrow> True | Some t \<Rightarrow> strEq (LTRIM (RTRIM t)) [])
        (THROW titleRequired),
      IF (\<lambda>s. case u_title p of None \<Rightarrow> False | Some t \<Rightarrow> LEN t > 100)
        (THROW titleExceedsMaxLength),
      IF (\<lambda>s. case u_description p of None \<Rightarrow> False | Some d \<Rightarrow> LEN d > 500)
        (THROW descriptionExceedsMaxLength),
      IF (\<lambda>s. case u_priority p of None \<Rightarrow> False | Some n \<Rightarrow> \<not> (0 \<le> n \<and> n \<le> 2))
        (THROW invalidPriority),
      IF (\<lambda>s. case u_status p of None \<Rightarrow> False | Some n \<Rightarrow> \<not> (0 \<le> n \<and> n \<le> 1))
        (THROW invalidStatus),
      IF (\<lambda>s. case u_dueDate p of None \<Rightarrow> False | Some d \<Rightarrow> d < CAST_DATE now)
        (THROW dueDateInPast),
      IF (\<lambda>s. \<not> accountExists (tables s) (u_idAccount p))
        (THROW accountDoesntExist),
      IF (\<lambda>s. \<not> userExists (tables s) (u_idUser p) (u_idAccount p))
        (THROW userDoesntExist),
      IF (\<lambda>s. \<not> taskExists (tables s) (u_idTask p) (u_idAccount p) (u_idUser p))
        (THROW taskDoesntExist),
      IF (\<lambda>s. titleTakenByOther (tables s) (u_idAccount p) (u_idUser p) (u_title p) (u_idTask p))
        (THROW titleAlreadyExists),
      TRY_CATCH
        (block [BEGIN_TRAN, UPDATE_task now p, SELECT_idTask (\<lambda>s. u_idTask p), COMMIT_TRAN])
        (\<lambda>e. block [ROLLBACK_TRAN, RETHROW e])]"

section \<open>\<^verbatim>\<open>spTaskList\<close>\<close>

record listParams =
  l_idAccount :: "int option"
  l_idUser :: "int option"
  l_status :: "nat option"
  l_priority :: "nat option"

text \<open>
  \<^verbatim>\<open>ORDER BY\<close> arranges the selected rows by a comparison of two rows; rows that
  compare equal keep the order of the table.
\<close>

fun insertBy :: "('a \<Rightarrow> 'a \<Rightarrow> bool) \<Rightarrow> 'a \<Rightarrow> 'a list \<Rightarrow> 'a list" where
  "insertBy le x [] = [x]"
| "insertBy le x (y # ys) = (if le x y then x # y # ys else y # insertBy le x ys)"

definition ORDER_BY :: "('a \<Rightarrow> 'a \<Rightarrow> bool) \<Rightarrow> 'a list \<Rightarrow> 'a list" where
  "ORDER_BY le xs = foldr (insertBy le) xs []"

text \<open>
  The ascending order of a nullable column: SQL Server treats \<^verbatim>\<open>NULL\<close> as the lowest
  value, so under \<^verbatim>\<open>ASC\<close> a \<^verbatim>\<open>NULL\<close> comes before every date.
\<close>

fun ascNullable :: "int option \<Rightarrow> int option \<Rightarrow> bool" where
  "ascNullable None None = False"
| "ascNullable None (Some y) = True"
| "ascNullable (Some x) None = False"
| "ascNullable (Some x) (Some y) = (x < y)"

text \<open>\<^verbatim>\<open>ORDER BY [priority] DESC, [dueDate] ASC, [dateCreated] DESC\<close>.\<close>

definition listOrder :: "task \<Rightarrow> task \<Rightarrow> bool" where
  "listOrder a b =
     (priority a > priority b \<or>
      (priority a = priority b \<and>
        (ascNullable (dueDate a) (dueDate b) \<or>
         (dueDate a = dueDate b \<and> dateCreated a \<ge> dateCreated b))))"

definition listWhere :: "listParams \<Rightarrow> task \<Rightarrow> bool" where
  "listWhere p t =
     (Some (idAccount t) = l_idAccount p \<and> Some (idUser t) = l_idUser p \<and> \<not> deleted t \<and>
      (l_status p = None \<or> Some (status t) = l_status p) \<and>
      (l_priority p = None \<or> Some (priority t) = l_priority p))"

definition spTaskList :: "listParams \<Rightarrow> stmt" where
  "spTaskList p = block
     [IF (\<lambda>s. \<not> accountExists (tables s) (l_idAccount p))
        (THROW accountDoesntExist),
      IF (\<lambda>s. \<not> userExists (tables s) (l_idUser p) (l_idAccount p))
        (THROW userDoesntExist),
      IF (\<lambda>s. case l_status p of None \<Rightarrow> False | Some n \<Rightarrow> \<not> (0 \<le> n \<and> n \<le> 1))
        (THROW invalidStatus),
      IF (\<lambda>s. case l_priority p of None \<Rightarrow> False | Some n \<Rightarrow> \<not> (0 \<le> n \<and> n \<le> 2))
        (THROW invalidPriority),
      SELECT_tasks (\<lambda>db. ORDER_BY listOrder (filter (listWhere p) (tblTask db)))]"

section \<open>The service functions (\<^verbatim>\<open>taskRules.ts\<close>)\<close>

text \<open>
  \<^verbatim>\<open>pool.request() ... .execute(procedure)\<close> runs the procedure in a session of its own, with
  no transaction open, and returns the result sets or rejects with the error of the engine.
  \<^verbatim>\<open>result.recordset\<close> is the first result set.
\<close>

definition openSession :: "database \<Rightarrow> session" where
  "openSession db =
     \<lparr>tables = db, trancount = 0, saved = None, tranlog = [], scopeIdentity = None,
      recordsets = []\<rparr>"

definition execute :: "stmt \<Rightarrow> database \<Rightarrow> (sqlError + row list list) \<times> database" where
  "execute proc db =
     (case proc (openSession db) of
        Inl (e, s) \<Rightarrow> (Inl e, tables s)
      | Inr s \<Rightarrow> (Inr (recordsets s), tables s))"

definition recordset :: "row list list \<Rightarrow> row list" where
  "recordset rs = (case rs of [] \<Rightarrow> [] | r # _ \<Rightarrow> r)"

text \<open>\<^verbatim>\<open>recordset[0]\<close>: the first row, \<open>None\<close> (\<^verbatim>\<open>undefined\<close>) when there is none.\<close>

definition firstRow :: "row list \<Rightarrow> row option" where
  "firstRow rows = (case rows of [] \<Rightarrow> None | r # _ \<Rightarrow> Some r)"

text \<open>
  An argument longer than the declared \<^verbatim>\<open>NVARCHAR(n)\<close> of a parameter is converted to the
  declared type: the engine keeps its first \<open>n\<close> characters and raises no error.
\<close>

definition NVARCHAR :: "nat \<Rightarrow> string \<Rightarrow> string" where
  "NVARCHAR n s = take n s"

text \<open>
  The request types of \<^verbatim>\<open>taskTypes\<close>.  An optional property that is \<^verbatim>\<open>undefined\<close> (or
  \<^verbatim>\<open>null\<close>) is \<open>None\<close>; a \<^verbatim>\<open>Date\<close> is its instant.
\<close>

record TaskCreateRequest =
  cr_idAccount :: int
  cr_idUser :: int
  cr_title :: string
  cr_description :: "string option"
  cr_priority :: "nat option"
  cr_dueDate :: "int option"

record TaskListRequest =
  lr_idAccount :: int
  lr_idUser :: int
  lr_status :: "nat option"
  lr_priority :: "nat option"

record TaskGetRequest =
  gr_idAccount :: int
  gr_idUser :: int
  gr_idTask :: int

record TaskUpdateRequest =
  ur_idAccount :: int
  ur_idUser :: int
  ur_idTask :: int
  ur_title :: string
  ur_description :: "string option"
  ur_priority :: nat
  ur_dueDate :: "int option"
  ur_status :: nat

definition taskCreate ::
  "int \<Rightarrow> database \<Rightarrow> TaskCreateRequest \<Rightarrow> (sqlError + row option) \<times> database" where
  "taskCreate now db params =
     (case execute (spTaskCreate now
              \<lparr>c_idAccount = Some (cr_idAccount params),
               c_idUser = Some (cr_idUser params),
               c_title = Some (NVARCHAR 100 (cr_title params)),
               c_description = Some (NVARCHAR 500
                  (case cr_description params of None \<Rightarrow> [] | Some d \<Rightarrow> d)),
               c_priority = Some (case cr_priority params of None \<Rightarrow> 1 | Some n \<Rightarrow> n),
               c_dueDate = map_option CAST_DATE (cr_dueDate params)\<rparr>) db of
        (Inl e, db') \<Rightarrow> (Inl e, db')
      | (Inr rs, db') \<Rightarrow> (Inr (firstRow (recordset rs)), db'))"

definition taskList ::
  "database \<Rightarrow> TaskListRequest \<Rightarrow> (sqlError + row list) \<times> database" where
  "taskList db params =
     (case execute (spTaskList
              \<lparr>l_idAccount = Some (lr_idAccount params),
               l_idUser = Some (lr_idUser params),
               l_status = lr_status params,
               l_priority = lr_priority params\<rparr>) db of
        (Inl e, db') \<Rightarrow> (Inl e, db')
      | (Inr rs, db') \<Rightarrow> (Inr (recordset rs), db'))"

definition taskGet ::
  "database \<Rightarrow> TaskGetRequest \<Rightarrow> (sqlError + row option) \<times> database" where
  "taskGet db params =
     (case execute (spTaskGet
              \<lparr>k_idAccount = Some (gr_idAccount params),
               k_idUser = Some (gr_idUser params),
               k_idTask = Some (gr_idTask params)\<rparr>) db of
        (Inl e, db') \<Rightarrow> (Inl e, db')
      | (Inr rs, db') \<Rightarrow> (Inr (firstRow (recordset rs)), db'))"

definition taskUpdate ::
  "int \<Rightarrow> database \<Rightarrow> TaskUpdateRequest \<Rightarrow> (sqlError + row option) \<times> database" where
  "taskUpdate now db params =
     (case execute (spTaskUpdate now
              \<lparr>u_idAccount = Some (ur_idAccount params),
               u_idUser = Some (ur_idUser params),
               u_idTask = Some (ur_idTask params),
               u_title = Some (NVARCHAR 100 (ur_title params)),
               u_description = Some (NVARCHAR 500
                  (case ur_description params of None \<Rightarrow> [] | Some d \<Rightarrow> d)),
               u_priority = Some (ur_priority params),
               u_dueDate = map_option CAST_DATE (ur_dueDate params),
               u_status = Some (ur_status params)\<rparr>) db of
        (Inl e, db') \<Rightarrow> (Inl e, db')
      | (Inr rs, db') \<Rightarrow> (Inr (firstRow (recordset rs)), db'))"

definition taskDelete ::
  "int \<Rightarrow> database \<Rightarrow> TaskGetRequest \<Rightarrow> (sqlError + row option) \<times> database" where
  "taskDelete now db params =
     (case execute (spTaskDelete now
              \<lparr>k_idAccount = Some (gr_idAccount params),
               k_idUser = Some (gr_idUser params),
               k_idTask = Some (gr_idTask params)\<rparr>) db of
        (Inl e, db') \<Rightarrow> (Inl e, db')
      | (Inr rs, db') \<Rightarrow> (Inr (firstRow (recordset rs)), db'))"

text \<open>
  The interface \<^verbatim>\<open>TaskEntity\<close> that \<^verbatim>\<open>taskGet\<close> and \<^verbatim>\<open>taskList\<close> declare for their
  results: the names of its properties.
\<close>

definition TaskEntity :: "string list" where
  "TaskEntity =
     [''idTask'', ''idAccount'', ''idUser'', ''title'', ''description'', ''priority'',
      ''dueDate'', ''status'', ''dateCreated'', ''dateModified'']"

type_synonym TaskDeleteRequest = TaskGetRequest

section \<open>The controller (\<^verbatim>\<open>controller.ts\<close>, \<^verbatim>\<open>zodHelpers.ts\<close>)\<close>

text \<open>
  A value of a request body: \<^verbatim>\<open>undefined\<close> (the property is absent), \<^verbatim>\<open>null\<close>, a number
  that is an integer, a finite number that is not (\<open>JFraction n\<close> lies strictly between
  \<open>n\<close> and \<open>n + 1\<close>), an infinity (\<open>True\<close> for the positive one), \<^verbatim>\<open>NaN\<close>, a string, or
  any other value.  The values of a query string and of a route parameter are strings
  (\<open>None\<close> when absent).  Two functions of the runtime are parameters of the model:
  \<^verbatim>\<open>Number(s)\<close> of a string, which \<^verbatim>\<open>z.coerce.number()\<close> applies, and the instant of an ISO
  date-time string (\<open>None\<close> when \<^verbatim>\<open>z.string().datetime()\<close> refuses the string).
\<close>

datatype json =
    JUndefined | JNull | JNumber int | JFraction int | JInfinity bool | JNaN
  | JString string | JOther

record runtime =
  Number :: "string \<Rightarrow> json"
  isoDatetime :: "string \<Rightarrow> int option"

text \<open>
  A schema returns the parsed value (\<open>Inr\<close>), or the number of issues it raises (\<open>Inl\<close>).
  A value of the wrong type raises one issue and ends the parse of the property; a value
  of the right type goes through every check of the schema, and each check that fails
  raises an issue of its own.
\<close>

definition zString :: "nat option \<Rightarrow> json \<Rightarrow> nat + string" where
  "zString maxLength v =
     (case v of
        JString s \<Rightarrow>
          if length s < 1 then Inl 1
          else (case maxLength of
                  None \<Rightarrow> Inr s
                | Some m \<Rightarrow> if m \<noteq> 0 \<and> length s > m then Inl 1 else Inr s)
      | _ \<Rightarrow> Inl 1)"

definition nullable :: "(json \<Rightarrow> nat + 'a) \<Rightarrow> json \<Rightarrow> nat + 'a option" where
  "nullable schema v =
     (case v of
        JNull \<Rightarrow> Inr None
      | _ \<Rightarrow> (case schema v of Inl n \<Rightarrow> Inl n | Inr x \<Rightarrow> Inr (Some x)))"

definition optional :: "(json \<Rightarrow> nat + 'a) \<Rightarrow> json \<Rightarrow> nat + 'a option" where
  "optional schema v =
     (case v of
        JUndefined \<Rightarrow> Inr None
      | _ \<Rightarrow> (case schema v of Inl n \<Rightarrow> Inl n | Inr x \<Rightarrow> Inr (Some x)))"

definition zNullableString :: "nat option \<Rightarrow> json \<Rightarrow> nat + string option" where
  "zNullableString maxLength =
     nullable (\<lambda>v. case v of
        JString s \<Rightarrow>
          (case maxLength of
             None \<Rightarrow> Inr s
           | Some m \<Rightarrow> if m \<noteq> 0 \<and> length s > m then Inl 1 else Inr s)
      | _ \<Rightarrow> Inl 1)"

text \<open>
  The checks of a number schema: \<^verbatim>\<open>.int()\<close>, \<^verbatim>\<open>.positive()\<close>, \<^verbatim>\<open>.min(k)\<close> and
  \<^verbatim>\<open>.max(k)\<close>, on a value that is a number.
\<close>

fun z_int :: "json \<Rightarrow> bool" where
  "z_int (JNumber n) = True"
| "z_int v = False"

fun z_positive :: "json \<Rightarrow> bool" where
  "z_positive (JNumber n) = (0 < n)"
| "z_positive (JFraction n) = (0 \<le> n)"
| "z_positive (JInfinity p) = p"
| "z_positive v = False"

fun z_min :: "int \<Rightarrow> json \<Rightarrow> bool" where
  "z_min k (JNumber n) = (k \<le> n)"
| "z_min k (JFraction n) = (k \<le> n)"
| "z_min k (JInfinity p) = p"
| "z_min k v = False"

fun z_max :: "int \<Rightarrow> json \<Rightarrow> bool" where
  "z_max k (JNumber n) = (n \<le> k)"
| "z_max k (JFraction n) = (n < k)"
| "z_max k (JInfinity p) = (\<not> p)"
| "z_max k v = False"

definition failing :: "(json \<Rightarrow> bool) list \<Rightarrow> json \<Rightarrow> nat" where
  "failing checks v = length (filter (\<lambda>check. \<not> check v) checks)"

text \<open>
  \<^verbatim>\<open>z.number()\<close> followed by the given checks, \<^verbatim>\<open>.int()\<close> among them: \<^verbatim>\<open>NaN\<close> and every value
  that is not a number raise the one issue of the type.
\<close>

definition zNumber :: "(json \<Rightarrow> bool) list \<Rightarrow> json \<Rightarrow> nat + int" where
  "zNumber checks v =
     (case v of
        JNumber n \<Rightarrow> if failing checks v = 0 then Inr n else Inl (failing checks v)
      | JFraction _ \<Rightarrow> Inl (failing checks v)
      | JInfinity _ \<Rightarrow> Inl (failing checks v)
      | _ \<Rightarrow> Inl 1)"

text \<open>\<^verbatim>\<open>z.number().int().positive()\<close>.\<close>

definition zFK :: "json \<Rightarrow> nat + int" where
  "zFK = zNumber [z_int, z_positive]"

text \<open>\<^verbatim>\<open>z.number().int().min(lo).max(hi)\<close>.\<close>

definition zIntRange :: "int \<Rightarrow> int \<Rightarrow> json \<Rightarrow> nat + int" where
  "zIntRange lo hi = zNumber [z_int, z_min lo, z_max hi]"

definition zDateString :: "runtime \<Rightarrow> json \<Rightarrow> nat + string" where
  "zDateString js v =
     (case v of JString s \<Rightarrow> if isoDatetime js s = None then Inl 1 else Inr s | _ \<Rightarrow> Inl 1)"

definition zNullableDateString :: "runtime \<Rightarrow> json \<Rightarrow> nat + string option" where
  "zNullableDateString js = nullable (zDateString js)"

text \<open>\<^verbatim>\<open>z.coerce.number().int().positive()\<close> and \<^verbatim>\<open>z.coerce.number().int().min(lo).max(hi)\<close>
  on a value of the query string; \<^verbatim>\<open>Number(undefined)\<close> is \<^verbatim>\<open>NaN\<close>.\<close>

definition coerceNumber :: "runtime \<Rightarrow> string option \<Rightarrow> json" where
  "coerceNumber js v = (case v of None \<Rightarrow> JNaN | Some s \<Rightarrow> Number js s)"

definition zCoercePositive :: "runtime \<Rightarrow> string option \<Rightarrow> nat + int" where
  "zCoercePositive js v = zFK (coerceNumber js v)"

definition zCoerceRangeOptional ::
  "runtime \<Rightarrow> int \<Rightarrow> int \<Rightarrow> string option \<Rightarrow> nat + int option" where
  "zCoerceRangeOptional js lo hi v =
     (case v of
        None \<Rightarrow> Inr None
      | Some s \<Rightarrow> (case zIntRange lo hi (Number js s) of Inl n \<Rightarrow> Inl n | Inr x \<Rightarrow> Inr (Some x)))"

text \<open>
  An object schema reports the issues of all its properties together, each issue with the
  path of its property.
\<close>

definition issue :: "string \<Rightarrow> nat + 'a \<Rightarrow> string list" where
  "issue path r = (case r of Inl n \<Rightarrow> replicate n path | Inr _ \<Rightarrow> [])"

record createBody =
  b_idAccount :: json
  b_idUser :: json
  b_title :: json
  b_description :: json
  b_priority :: json
  b_dueDate :: json

record createValidated =
  v_idAccount :: int
  v_idUser :: int
  v_title :: string
  v_description :: "string option option"
  v_priority :: "int option"
  v_dueDate :: "string option option"

definition createBodySchema :: "runtime \<Rightarrow> createBody \<Rightarrow> string list + createValidated" where
  "createBodySchema js body =
     (let x_idAccount = zFK (b_idAccount body);
          x_idUser = zFK (b_idUser body);
          x_title = zString (Some 100) (b_title body);
          x_description = optional (zNullableString (Some 500)) (b_description body);
          x_priority = optional (zIntRange 0 2) (b_priority body);
          x_dueDate = optional (zNullableDateString js) (b_dueDate body);
          issues = issue ''idAccount'' x_idAccount @ issue ''idUser'' x_idUser @
                   issue ''title'' x_title @ issue ''description'' x_description @
                   issue ''priority'' x_priority @ issue ''dueDate'' x_dueDate
      in if issues = []
         then Inr \<lparr>v_idAccount = projr x_idAccount, v_idUser = projr x_idUser,
                   v_title = projr x_title, v_description = projr x_description,
                   v_priority = projr x_priority, v_dueDate = projr x_dueDate\<rparr>
         else Inl issues)"

record updateBody =
  ub_idAccount :: json
  ub_idUser :: json
  ub_title :: json
  ub_description :: json
  ub_priority :: json
  ub_dueDate :: json
  ub_status :: json

record updateValidated =
  uv_idAccount :: int
  uv_idUser :: int
  uv_title :: string
  uv_description :: "string option option"
  uv_priority :: int
  uv_dueDate :: "string option option"
  uv_status :: int

definition updateBodySchema :: "runtime \<Rightarrow> updateBody \<Rightarrow> string list + updateValidated" where
  "updateBodySchema js body =
     (let x_idAccount = zFK (ub_idAccount body);
          x_idUser = zFK (ub_idUser body);
          x_title = zString (Some 100) (ub_title body);
          x_description = optional (zNullableString (Some 500)) (ub_description body);
          x_priority = zIntRange 0 2 (ub_priority body);
          x_dueDate = optional (zNullableDateString js) (ub_dueDate body);
          x_status = zIntRange 0 1 (ub_status body);
          issues = issue ''idAccount'' x_idAccount @ issue ''idUser'' x_idUser @
                   issue ''title'' x_title @ issue ''description'' x_description @
                   issue ''priority'' x_priority @ issue ''dueDate'' x_dueDate @
                   issue ''status'' x_status
      in if issues = []
         then Inr \<lparr>uv_idAccount = projr x_idAccount, uv_idUser = projr x_idUser,
                   uv_title = projr x_title, uv_description = projr x_description,
                   uv_priority = projr x_priority, uv_dueDate = projr x_dueDate,
                   uv_status = projr x_status\<rparr>
         else Inl issues)"

record listQuery =
  lq_idAccount :: "string option"
  lq_idUser :: "string option"
  lq_status :: "string option"
  lq_priority :: "string option"

definition listQuerySchema :: "runtime \<Rightarrow> listQuery \<Rightarrow> string list + TaskListRequest" where
  "listQuerySchema js query =
     (let x_idAccount = zCoercePositive js (lq_idAccount query);
          x_idUser = zCoercePositive js (lq_idUser query);
          x_status = zCoerceRangeOptional js 0 1 (lq_status query);
          x_priority = zCoerceRangeOptional js 0 2 (lq_priority query);
          issues = issue ''idAccount'' x_idAccount @ issue ''idUser'' x_idUser @
                   issue ''status'' x_status @ issue ''priority'' x_priority
      in if issues = []
         then Inr \<lparr>lr_idAccount = projr x_idAccount, lr_idUser = projr x_idUser,
                   lr_status = map_option nat (projr x_status),
                   lr_priority = map_option nat (projr x_priority)\<rparr>
         else Inl issues)"

text \<open>\<^verbatim>\<open>getParamsSchema\<close>, \<^verbatim>\<open>updateParamsSchema\<close> and \<^verbatim>\<open>deleteParamsSchema\<close> are one schema,
  and so are \<^verbatim>\<open>getQuerySchema\<close> and \<^verbatim>\<open>deleteQuerySchema\<close>.\<close>

definition idParamsSchema :: "runtime \<Rightarrow> string \<Rightarrow> string list + int" where
  "idParamsSchema js reqId =
     (case zCoercePositive js (Some reqId) of
        Inl n \<Rightarrow> Inl (replicate n ''id'')
      | Inr i \<Rightarrow> Inr i)"

record keyQuery =
  kq_idAccount :: "string option"
  kq_idUser :: "string option"

definition keyQuerySchema :: "runtime \<Rightarrow> keyQuery \<Rightarrow> string list + (int \<times> int)" where
  "keyQuerySchema js query =
     (let x_idAccount = zCoercePositive js (kq_idAccount query);
          x_idUser = zCoercePositive js (kq_idUser query);
          issues = issue ''idAccount'' x_idAccount @ issue ''idUser'' x_idUser
      in if issues = [] then Inr (projr x_idAccount, projr x_idUser) else Inl issues)"

text \<open>
  Modelled from the spec: the constants of \<^verbatim>\<open>@/constants/http\<close> are not in the sources;
  the spec gives 201 for a created task, 400 for a validation failure and 404 for an
  absent task.  \<^verbatim>\<open>res.json\<close> without \<^verbatim>\<open>res.status\<close> answers 200.
\<close>

definition HTTP_STATUS_OK :: nat where "HTTP_STATUS_OK = 200"
definition HTTP_STATUS_CREATED :: nat where "HTTP_STATUS_CREATED = 201"
definition HTTP_STATUS_BAD_REQUEST :: nat where "HTTP_STATUS_BAD_REQUEST = 400"
definition HTTP_STATUS_NOT_FOUND :: nat where "HTTP_STATUS_NOT_FOUND = 404"

text \<open>
  What a handler catches: the error of a schema with its issues, or the error of the
  engine that \<^verbatim>\<open>execute\<close> rejects with (\<^verbatim>\<open>error.number\<close>, \<^verbatim>\<open>error.message\<close>).  What a
  handler does: it answers with a status and a body built by \<^verbatim>\<open>successResponse\<close> or
  \<^verbatim>\<open>errorResponse\<close> (message, code, details), or passes the error to \<^verbatim>\<open>next\<close>.
\<close>

datatype jsError = ZodError "string list" | RequestError sqlError

datatype data = One "row option" | Many "row list"

datatype body = successResponse data | errorResponse string "string option" "string list"

datatype reply = Status nat body | Next jsError

text \<open>
  The \<^verbatim>\<open>catch\<close> block of a handler.  The five blocks differ in one place: the status
  sent for an error whose number is 51000.
\<close>

definition catchBlock :: "nat \<Rightarrow> jsError \<Rightarrow> reply" where
  "catchBlock st error =
     (case error of
        ZodError issues \<Rightarrow>
          Status HTTP_STATUS_BAD_REQUEST
            (errorResponse ''Validation failed'' (Some ''VALIDATION_ERROR'') issues)
      | RequestError e \<Rightarrow>
          if errorNumber e = 51000 then Status st (errorResponse (errorMessage e) None [])
          else Next error)"

definition flatten :: "'a option option \<Rightarrow> 'a option" where
  "flatten v = (case v of Some (Some x) \<Rightarrow> Some x | _ \<Rightarrow> None)"

text \<open>\<^verbatim>\<open>validated.dueDate ? new Date(validated.dueDate) : undefined\<close>.\<close>

definition toDate :: "runtime \<Rightarrow> string option option \<Rightarrow> int option" where
  "toDate js v =
     (case flatten v of None \<Rightarrow> None | Some s \<Rightarrow> if s = [] then None else isoDatetime js s)"

text \<open>The objects the handlers pass to \<^verbatim>\<open>taskCreate\<close> and \<^verbatim>\<open>taskUpdate\<close>.\<close>

definition createRequest :: "runtime \<Rightarrow> createValidated \<Rightarrow> TaskCreateRequest" where
  "createRequest js validated =
     \<lparr>cr_idAccount = v_idAccount validated,
      cr_idUser = v_idUser validated,
      cr_title = v_title validated,
      cr_description = flatten (v_description validated),
      cr_priority = map_option nat (v_priority validated),
      cr_dueDate = toDate js (v_dueDate validated)\<rparr>"

definition updateRequest :: "runtime \<Rightarrow> int \<Rightarrow> updateValidated \<Rightarrow> TaskUpdateRequest" where
  "updateRequest js tid validated =
     \<lparr>ur_idAccount = uv_idAccount validated,
      ur_idUser = uv_idUser validated,
      ur_idTask = tid,
      ur_title = uv_title validated,
      ur_description = flatten (uv_description validated),
      ur_priority = nat (uv_priority validated),
      ur_dueDate = toDate js (uv_dueDate validated),
      ur_status = nat (uv_status validated)\<rparr>"

definition postHandler :: "runtime \<Rightarrow> int \<Rightarrow> database \<Rightarrow> createBody \<Rightarrow> reply \<times> database" where
  "postHandler js now db reqBody =
     (case createBodySchema js reqBody of
        Inl issues \<Rightarrow> (catchBlock HTTP_STATUS_BAD_REQUEST (ZodError issues), db)
      | Inr validated \<Rightarrow>
          (case taskCreate now db (createRequest js validated) of
             (Inl e, db') \<Rightarrow> (catchBlock HTTP_STATUS_BAD_REQUEST (RequestError e), db')
           | (Inr d, db') \<Rightarrow> (Status HTTP_STATUS_CREATED (successResponse (One d)), db')))"

definition getListHandler :: "runtime \<Rightarrow> database \<Rightarrow> listQuery \<Rightarrow> reply \<times> database" where
  "getListHandler js db reqQuery =
     (case listQuerySchema js reqQuery of
        Inl issues \<Rightarrow> (catchBlock HTTP_STATUS_BAD_REQUEST (ZodError issues), db)
      | Inr validated \<Rightarrow>
          (case taskList db validated of
             (Inl e, db') \<Rightarrow> (catchBlock HTTP_STATUS_BAD_REQUEST (RequestError e), db')
           | (Inr d, db') \<Rightarrow> (Status HTTP_STATUS_OK (successResponse (Many d)), db')))"

definition getHandler :: "runtime \<Rightarrow> database \<Rightarrow> string \<Rightarrow> keyQuery \<Rightarrow> reply \<times> database" where
  "getHandler js db reqId reqQuery =
     (case idParamsSchema js reqId of
        Inl issues \<Rightarrow> (catchBlock HTTP_STATUS_NOT_FOUND (ZodError issues), db)
      | Inr tid \<Rightarrow>
          (case keyQuerySchema js reqQuery of
             Inl issues \<Rightarrow> (catchBlock HTTP_STATUS_NOT_FOUND (ZodError issues), db)
           | Inr (x_idAccount, x_idUser) \<Rightarrow>
               (case taskGet db
                       \<lparr>gr_idAccount = x_idAccount, gr_idUser = x_idUser, gr_idTask = tid\<rparr> of
                  (Inl e, db') \<Rightarrow> (catchBlock HTTP_STATUS_NOT_FOUND (RequestError e), db')
                | (Inr d, db') \<Rightarrow> (Status HTTP_STATUS_OK (successResponse (One d)), db'))))"

definition putHandler ::
  "runtime \<Rightarrow> int \<Rightarrow> database \<Rightarrow> string \<Rightarrow> updateBody \<Rightarrow> reply \<times> database" where
  "putHandler js now db reqId reqBody =
     (case idParamsSchema js reqId of
        Inl issues \<Rightarrow> (catchBlock HTTP_STATUS_BAD_REQUEST (ZodError issues), db)
      | Inr tid \<Rightarrow>
          (case updateBodySchema js reqBody of
             Inl issues \<Rightarrow> (catchBlock HTTP_STATUS_BAD_REQUEST (ZodError issues), db)
           | Inr validated \<Rightarrow>
               (case taskUpdate now db (updateRequest js tid validated) of
                  (Inl e, db') \<Rightarrow> (catchBlock HTTP_STATUS_BAD_REQUEST (RequestError e), db')
                | (Inr d, db') \<Rightarrow> (Status HTTP_STATUS_OK (successResponse (One d)), db'))))"

definition deleteHandler ::
  "runtime \<Rightarrow> int \<Rightarrow> database \<Rightarrow> string \<Rightarrow> keyQuery \<Rightarrow> reply \<times> database" where
  "deleteHandler js now db reqId reqQuery =
     (case idParamsSchema js reqId of
        Inl issues \<Rightarrow> (catchBlock HTTP_STATUS_NOT_FOUND (ZodError issues), db)
      | Inr tid \<Rightarrow>
          (case keyQuerySchema js reqQuery of
             Inl issues \<Rightarrow> (catchBlock HTTP_STATUS_NOT_FOUND (ZodError issues), db)
           | Inr (x_idAccount, x_idUser) \<Rightarrow>
               (case taskDelete now db
                       \<lparr>gr_idAccount = x_idAccount, gr_idUser = x_idUser, gr_idTask = tid\<rparr> of
                  (Inl e, db') \<Rightarrow> (catchBlock HTTP_STATUS_NOT_FOUND (RequestError e), db')
                | (Inr d, db') \<Rightarrow> (Status HTTP_STATUS_OK (successResponse (One d)), db'))))"

section \<open>The statements of the specification\<close>

text \<open>
  The validation order of Create as the specification lists it: each check with the
  condition under which it passes and the error kind it raises otherwise.  The first
  violated check of the list decides the error.
\<close>

definition spec_createChecks :: "int \<Rightarrow> database \<Rightarrow> createParams \<Rightarrow> (bool \<times> errorKind) list" where
  "spec_createChecks now db p =
     [((case c_title p of None \<Rightarrow> False | Some t \<Rightarrow> \<not> list_all (\<lambda>c. c = CHR '' '') t),
         titleRequired),
      ((case c_title p of None \<Rightarrow> True | Some t \<Rightarrow> LEN t \<le> 100), titleExceedsMaxLength),
      ((case c_description p of None \<Rightarrow> True | Some d \<Rightarrow> LEN d \<le> 500),
         descriptionExceedsMaxLength),
      ((case c_priority p of None \<Rightarrow> True | Some n \<Rightarrow> n \<in> {0..2}), invalidPriority),
      ((case c_dueDate p of None \<Rightarrow> True | Some d \<Rightarrow> CAST_DATE now \<le> d), dueDateInPast),
      (accountExists db (c_idAccount p), accountDoesntExist),
      (userExists db (c_idUser p) (c_idAccount p), userDoesntExist),
      (\<not> titleTaken db (c_idAccount p) (c_idUser p) (c_title p), titleAlreadyExists)]"

fun spec_firstViolation :: "(bool \<times> errorKind) list \<Rightarrow> errorKind option" where
  "spec_firstViolation [] = None"
| "spec_firstViolation ((ok, k) # cs) = (if ok then spec_firstViolation cs else Some k)"

text \<open>
  The fields of a Create request as the specification reads them: the title and the
  description of the request as the caller gives them, whatever their length, with the
  defaults of the service for an absent description and priority.
\<close>

definition spec_createRequest :: "TaskCreateRequest \<Rightarrow> createParams" where
  "spec_createRequest params =
     \<lparr>c_idAccount = Some (cr_idAccount params),
      c_idUser = Some (cr_idUser params),
      c_title = Some (cr_title params),
      c_description = Some (case cr_description params of None \<Rightarrow> [] | Some d \<Rightarrow> d),
      c_priority = Some (case cr_priority params of None \<Rightarrow> 1 | Some n \<Rightarrow> n),
      c_dueDate = map_option CAST_DATE (cr_dueDate params)\<rparr>"

text \<open>
  The validations of Update in the order of the specification: those of Create with the
  status check added, then the account and the user, then the existence and ownership of
  the task, then the uniqueness of the title among the other tasks.
\<close>

definition spec_updateChecks :: "int \<Rightarrow> database \<Rightarrow> updateParams \<Rightarrow> (bool \<times> errorKind) list" where
  "spec_updateChecks now db p =
     [((case u_title p of None \<Rightarrow> False | Some t \<Rightarrow> \<not> list_all (\<lambda>c. c = CHR '' '') t),
         titleRequired),
      ((case u_title p of None \<Rightarrow> True | Some t \<Rightarrow> LEN t \<le> 100), titleExceedsMaxLength),
      ((case u_description p of None \<Rightarrow> True | Some d \<Rightarrow> LEN d \<le> 500),
         descriptionExceedsMaxLength),
      ((case u_priority p of None \<Rightarrow> True | Some n \<Rightarrow> n \<in> {0..2}), invalidPriority),
      ((case u_status p of None \<Rightarrow> True | Some n \<Rightarrow> n \<in> {0..1}), invalidStatus),
      ((case u_dueDate p of None \<Rightarrow> True | Some d \<Rightarrow> CAST_DATE now \<le> d), dueDateInPast),
      (accountExists db (u_idAccount p), accountDoesntExist),
      (userExists db (u_idUser p) (u_idAccount p), userDoesntExist),
      (taskExists db (u_idTask p) (u_idAccount p) (u_idUser p), taskDoesntExist),
      (\<not> titleTakenByOther db (u_idAccount p) (u_idUser p) (u_title p) (u_idTask p),
         titleAlreadyExists)]"

text \<open>The unique index holds in a table when no row of it conflicts with another.\<close>

definition uqTask_Account_User_Title :: "task list \<Rightarrow> bool" where
  "uqTask_Account_User_Title rows =
     (\<forall>t \<in> set rows. \<not> uqTask_Account_User_Title_conflict rows t)"

text \<open>
  The invariant of a store: the unique index holds, the primary keys are distinct, and no
  stored key is above the identity counter.
\<close>

definition storeInvariant :: "database \<Rightarrow> bool" where
  "storeInvariant db =
     (uqTask_Account_User_Title (tblTask db) \<and> distinct (map idTask (tblTask db)) \<and>
      (\<forall>t \<in> set (tblTask db). idTask t \<le> identTask db))"

text \<open>
  The order of two rows of a result, read from their columns: priority descending, then
  the due date ascending under a given order of nullable dates, then the creation date
  descending.  The specification sorts a \<^verbatim>\<open>NULL\<close> due date last
  (\<open>spec_ascNullsLast\<close>); \<open>ascNullsFirst\<close> sorts it first.
\<close>

definition column :: "string \<Rightarrow> row \<Rightarrow> sqlValue" where
  "column c r = (case map_of r c of None \<Rightarrow> SqlNull | Some v \<Rightarrow> v)"

fun number :: "sqlValue \<Rightarrow> int" where
  "number (SqlInt n) = n"
| "number (SqlDate n) = n"
| "number (SqlDateTime n) = n"
| "number v = 0"

fun spec_ascNullsLast :: "sqlValue \<Rightarrow> sqlValue \<Rightarrow> bool" where
  "spec_ascNullsLast SqlNull v = False"
| "spec_ascNullsLast v SqlNull = True"
| "spec_ascNullsLast v w = (number v < number w)"

fun ascNullsFirst :: "sqlValue \<Rightarrow> sqlValue \<Rightarrow> bool" where
  "ascNullsFirst v SqlNull = False"
| "ascNullsFirst SqlNull w = True"
| "ascNullsFirst v w = (number v < number w)"

definition rowOrderBy :: "(sqlValue \<Rightarrow> sqlValue \<Rightarrow> bool) \<Rightarrow> row \<Rightarrow> row \<Rightarrow> bool" where
  "rowOrderBy asc r r' =
     (number (column ''priority'' r) > number (column ''priority'' r') \<or>
      (number (column ''priority'' r) = number (column ''priority'' r') \<and>
        (asc (column ''dueDate'' r) (column ''dueDate'' r') \<or>
         (column ''dueDate'' r = column ''dueDate'' r' \<and>
          number (column ''dateCreated'' r) \<ge> number (column ''dateCreated'' r')))))"

text \<open>
  The status the specification gives to an error kind of the rule engine: 404 for
  \<open>taskDoesntExist\<close>, 400 for every other kind.
\<close>

definition spec_httpStatus :: "errorKind \<Rightarrow> nat" where
  "spec_httpStatus k = (if k = taskDoesntExist then 404 else 400)"

section \<open>Stores and requests of the examples\<close>

definition exampleStore :: database where
  "exampleStore =
     \<lparr>tblAccount = [1],
      tblUser = [(1, 1), (2, 1)],
      tblTask =
        [\<lparr>idTask = 1, idAccount = 1, idUser = 1, title = ''Buy milk'', description = [],
          priority = 2, dueDate = Some 20, status = 0, dateCreated = 100, dateModified = 100,
          deleted = False\<rparr>,
         \<lparr>idTask = 2, idAccount = 1, idUser = 1, title = ''Pay rent'', description = [],
          priority = 1, dueDate = None, status = 0, dateCreated = 200, dateModified = 200,
          deleted = False\<rparr>,
         \<lparr>idTask = 3, idAccount = 1, idUser = 1, title = ''Call home'', description = [],
          priority = 1, dueDate = Some 15, status = 1, dateCreated = 300, dateModified = 300,
          deleted = False\<rparr>,
         \<lparr>idTask = 4, idAccount = 1, idUser = 1, title = ''Old task'', description = [],
          priority = 0, dueDate = None, status = 0, dateCreated = 400, dateModified = 500,
          deleted = True\<rparr>,
         \<lparr>idTask = 5, idAccount = 1, idUser = 2, title = ''Buy milk'', description = [],
          priority = 0, dueDate = Some 30, status = 0, dateCreated = 600, dateModified = 600,
          deleted = False\<rparr>,
         \<lparr>idTask = 6, idAccount = 1, idUser = 1, title = ''Water plants'', description = [],
          priority = 0, dueDate = Some 25, status = 0, dateCreated = 700, dateModified = 700,
          deleted = False\<rparr>],
      identTask = 6\<rparr>"

text \<open>A request that violates two checks: a blank title and an account that does not exist.\<close>

definition exampleBlankCreate :: createParams where
  "exampleBlankCreate =
     \<lparr>c_idAccount = Some 9, c_idUser = Some 1, c_title = Some ''  '', c_description = Some [],
      c_priority = Some 1, c_dueDate = None\<rparr>"

text \<open>A request with valid fields for an account that does not exist.\<close>

definition exampleNoAccountCreate :: createParams where
  "exampleNoAccountCreate =
     \<lparr>c_idAccount = Some 9, c_idUser = Some 1, c_title = Some ''Walk dog'',
      c_description = Some [], c_priority = Some 1, c_dueDate = None\<rparr>"

text \<open>A request that passes the eight validations with a \<^verbatim>\<open>NULL\<close> description.\<close>

definition exampleNullCreate :: createParams where
  "exampleNullCreate =
     \<lparr>c_idAccount = Some 1, c_idUser = Some 1, c_title = Some ''Walk dog'',
      c_description = None, c_priority = Some 1, c_dueDate = None\<rparr>"

definition exampleList :: listParams where
  "exampleList = \<lparr>l_idAccount = Some 1, l_idUser = Some 1, l_status = None, l_priority = None\<rparr>"

text \<open>A runtime that reads three numbers and no date, and requests of the handlers.\<close>

definition exampleRuntime :: runtime where
  "exampleRuntime =
     \<lparr>Number = (\<lambda>s. if s = ''1'' then JNumber 1 else if s = ''4'' then JNumber 4
                     else if s = ''9'' then JNumber 9 else JNaN),
      isoDatetime = (\<lambda>s. None)\<rparr>"

definition exampleUpdateBody :: updateBody where
  "exampleUpdateBody =
     \<lparr>ub_idAccount = JNumber 1, ub_idUser = JNumber 1, ub_title = JString ''Pay rent now'',
      ub_description = JUndefined, ub_priority = JNumber 1, ub_dueDate = JUndefined,
      ub_status = JNumber 0\<rparr>"

text \<open>
  Two requests of user 1: the title of one of the user's tasks that is not deleted, and the
  title of the user's deleted task.
\<close>

definition exampleDuplicateCreate :: createParams where
  "exampleDuplicateCreate =
     \<lparr>c_idAccount = Some 1, c_idUser = Some 1, c_title = Some ''Buy milk'',
      c_description = Some [], c_priority = Some 1, c_dueDate = None\<rparr>"

definition exampleDeletedTitleCreate :: createParams where
  "exampleDeletedTitleCreate =
     \<lparr>c_idAccount = Some 1, c_idUser = Some 1, c_title = Some ''Old task'',
      c_description = Some [], c_priority = Some 1, c_dueDate = None\<rparr>"

text \<open>
  Two updates of task 2 of user 1: one keeps its title \<^verbatim>\<open>Pay rent\<close>, one takes the title
  of task 1.
\<close>

definition exampleKeepTitleUpdate :: updateParams where
  "exampleKeepTitleUpdate =
     \<lparr>u_idAccount = Some 1, u_idUser = Some 1, u_idTask = Some 2, u_title = Some ''Pay rent'',
      u_description = Some ''monthly'', u_priority = Some 2, u_dueDate = None,
      u_status = Some 1\<rparr>"

definition exampleTakenTitleUpdate :: updateParams where
  "exampleTakenTitleUpdate =
     \<lparr>u_idAccount = Some 1, u_idUser = Some 1, u_idTask = Some 2, u_title = Some ''Buy milk'',
      u_description = Some ''monthly'', u_priority = Some 2, u_dueDate = None,
      u_status = Some 1\<rparr>"

text \<open>
  User 2 of account 1 asks for task 1, which user 1 owns; in the second store no task has
  the key 1.  The update has valid fields.
\<close>

definition exampleForeignKey :: keyParams where
  "exampleForeignKey = \<lparr>k_idAccount = Some 1, k_idUser = Some 2, k_idTask = Some 1\<rparr>"

definition exampleForeignUpdate :: updateParams where
  "exampleForeignUpdate =
     \<lparr>u_idAccount = Some 1, u_idUser = Some 2, u_idTask = Some 1, u_title = Some ''Mine now'',
      u_description = Some [], u_priority = Some 0, u_dueDate = None, u_status = Some 1\<rparr>"

definition exampleStoreWithoutTask1 :: database where
  "exampleStoreWithoutTask1 = exampleStore\<lparr>tblTask := tl (tblTask exampleStore)\<rparr>"

text \<open>
  A store without tasks, and a Create with a title of 101 characters: as the body of
  POST /task and as the request of \<^verbatim>\<open>taskCreate\<close>.
\<close>

definition exampleEmptyStore :: database where
  "exampleEmptyStore = \<lparr>tblAccount = [1], tblUser = [(1, 1)], tblTask = [], identTask = 0\<rparr>"

definition exampleLongTitleBody :: createBody where
  "exampleLongTitleBody =
     \<lparr>b_idAccount = JNumber 1, b_idUser = JNumber 1,
      b_title = JString (replicate 101 (CHR ''a'')), b_description = JUndefined,
      b_priority = JUndefined, b_dueDate = JUndefined\<rparr>"

definition exampleLongTitleRequest :: TaskCreateRequest where
  "exampleLongTitleRequest =
     \<lparr>cr_idAccount = 1, cr_idUser = 1, cr_title = replicate 101 (CHR ''a''),
      cr_description = None, cr_priority = None, cr_dueDate = None\<rparr>"

text \<open>
  A Create with a title of 101 characters under an account that does not exist: the
  request of \<^verbatim>\<open>taskCreate\<close>.
\<close>

definition exampleLongTitleNoAccountRequest :: TaskCreateRequest where
  "exampleLongTitleNoAccountRequest =
     \<lparr>cr_idAccount = 9, cr_idUser = 1, cr_title = replicate 101 (CHR ''a''),
      cr_description = None, cr_priority = None, cr_dueDate = None\<rparr>"

section \<open>Strings\<close>

lemma dropWhile_all_Nil:
  assumes "\<forall>x \<in> set (dropWhile P xs). P x"
  shows "dropWhile P xs = []"
proof (rule ccontr)
  assume n: "dropWhile P xs \<noteq> []"
  from hd_dropWhile [OF n] have "\<not> P (hd (dropWhile P xs))" .
  moreover from n have "hd (dropWhile P xs) \<in> set (dropWhile P xs)" by (rule hd_in_set)
  ultimately show False using assms by blast
qed

lemma RTRIM_Nil_iff: "RTRIM s = [] \<longleftrightarrow> (\<forall>c \<in> set s. c = CHR '' '')"
  by (simp add: RTRIM_def)

lemma LTRIM_Nil_iff: "LTRIM s = [] \<longleftrightarrow> (\<forall>c \<in> set s. c = CHR '' '')"
  by (simp add: LTRIM_def)

lemma strEq_Nil: "strEq s [] \<longleftrightarrow> (\<forall>c \<in> set s. c = CHR '' '')"
  unfolding strEq_def RTRIM_Nil_iff [symmetric] by (simp add: RTRIM_def)

lemma spaces_LTRIM: "(\<forall>c \<in> set (LTRIM s). c = CHR '' '') \<longleftrightarrow> (\<forall>c \<in> set s. c = CHR '' '')"
proof
  assume "\<forall>c \<in> set (LTRIM s). c = CHR '' ''"
  then have "LTRIM s = []" unfolding LTRIM_def by (rule dropWhile_all_Nil)
  then show "\<forall>c \<in> set s. c = CHR '' ''" by (simp only: LTRIM_Nil_iff)
next
  assume "\<forall>c \<in> set s. c = CHR '' ''"
  then have "LTRIM s = []" by (simp only: LTRIM_Nil_iff)
  then show "\<forall>c \<in> set (LTRIM s). c = CHR '' ''" by simp
qed

lemma spaces_RTRIM: "(\<forall>c \<in> set (RTRIM s). c = CHR '' '') \<longleftrightarrow> (\<forall>c \<in> set s. c = CHR '' '')"
proof
  assume a: "\<forall>c \<in> set (RTRIM s). c = CHR '' ''"
  have "set (RTRIM s) = set (dropWhile (\<lambda>c. c = CHR '' '') (rev s))"
    unfolding RTRIM_def by (rule set_rev)
  with a have "\<forall>c \<in> set (dropWhile (\<lambda>c. c = CHR '' '') (rev s)). c = CHR '' ''"
    by (simp only:)
  then have "dropWhile (\<lambda>c. c = CHR '' '') (rev s) = []" by (rule dropWhile_all_Nil)
  then have "RTRIM s = []" unfolding RTRIM_def by (simp only: rev.simps)
  then show "\<forall>c \<in> set s. c = CHR '' ''" by (simp only: RTRIM_Nil_iff)
next
  assume "\<forall>c \<in> set s. c = CHR '' ''"
  then have "RTRIM s = []" by (simp only: RTRIM_Nil_iff)
  then show "\<forall>c \<in> set (RTRIM s). c = CHR '' ''" by simp
qed

lemma LTRIM_RTRIM_blank:
  "strEq (LTRIM (RTRIM t)) [] \<longleftrightarrow> list_all (\<lambda>c. c = CHR '' '') t"
  by (simp only: strEq_Nil spaces_LTRIM spaces_RTRIM list_all_iff)

lemma strEq_refl: "strEq a a"
  by (simp add: strEq_def)

lemma LEN_le_length: "LEN s \<le> length s"
  unfolding LEN_def RTRIM_def length_rev
  by (rule length_dropWhile_le [of _ "rev s", unfolded length_rev])

section \<open>Statements\<close>

lemma block_IF_THROW:
  "block (IF b (THROW k) # cs) s = (if b s then Inl (RuleError k, s) else block cs s)"
  by (simp add: IF_def THROW_def)

lemma block_single: "block [c] s = c s"
  by (cases "c s") simp_all

lemma check_title_present:
  "(case t of None \<Rightarrow> True | Some t \<Rightarrow> strEq (LTRIM (RTRIM t)) []) =
   (\<not> (case t of None \<Rightarrow> False | Some t \<Rightarrow> \<not> list_all (\<lambda>c. c = CHR '' '') t))"
  by (simp add: LTRIM_RTRIM_blank split: option.split)

lemma check_len:
  "(case t of None \<Rightarrow> False | Some t \<Rightarrow> LEN t > n) =
   (\<not> (case t of None \<Rightarrow> True | Some t \<Rightarrow> LEN t \<le> n))"
  by (simp add: not_le split: option.split)

lemma check_priority:
  "(case t of None \<Rightarrow> False | Some n \<Rightarrow> \<not> (0 \<le> n \<and> n \<le> (2::nat))) =
   (\<not> (case t of None \<Rightarrow> True | Some n \<Rightarrow> n \<in> {0..2}))"
  by (simp split: option.split)

lemma check_dueDate:
  "(case t of None \<Rightarrow> False | Some d \<Rightarrow> d < (c::int)) =
   (\<not> (case t of None \<Rightarrow> True | Some d \<Rightarrow> c \<le> d))"
  by (simp add: not_le split: option.split)

section \<open>Create: the order of the validations\<close>

lemma spTaskCreate_unfold:
  "spTaskCreate now p s =
    (if (case c_title p of None \<Rightarrow> True | Some t \<Rightarrow> strEq (LTRIM (RTRIM t)) [])
       then Inl (RuleError titleRequired, s)
     else if (case c_title p of None \<Rightarrow> False | Some t \<Rightarrow> LEN t > 100)
       then Inl (RuleError titleExceedsMaxLength, s)
     else if (case c_description p of None \<Rightarrow> False | Some d \<Rightarrow> LEN d > 500)
       then Inl (RuleError descriptionExceedsMaxLength, s)
     else if (case c_priority p of None \<Rightarrow> False | Some n \<Rightarrow> \<not> (0 \<le> n \<and> n \<le> 2))
       then Inl (RuleError invalidPriority, s)
     else if (case c_dueDate p of None \<Rightarrow> False | Some d \<Rightarrow> d < CAST_DATE now)
       then Inl (RuleError dueDateInPast, s)
     else if \<not> accountExists (tables s) (c_idAccount p)
       then Inl (RuleError accountDoesntExist, s)
     else if \<not> userExists (tables s) (c_idUser p) (c_idAccount p)
       then Inl (RuleError userDoesntExist, s)
     else if titleTaken (tables s) (c_idAccount p) (c_idUser p) (c_title p)
       then Inl (RuleError titleAlreadyExists, s)
     else TRY_CATCH
        (block [BEGIN_TRAN, INSERT_task now p, SELECT_idTask scopeIdentity, COMMIT_TRAN])
        (\<lambda>e. block [ROLLBACK_TRAN, RETHROW e]) s)"
  by (simp only: spTaskCreate_def block_IF_THROW block_single)

lemma INSERT_task_no_RuleError: "INSERT_task now p s \<noteq> Inl (RuleError k, s')"
  by (simp add: INSERT_task_def Let_def)

lemma createTran_no_RuleError:
  "TRY_CATCH (block [BEGIN_TRAN, INSERT_task now p, SELECT_idTask scopeIdentity, COMMIT_TRAN])
     (\<lambda>e. block [ROLLBACK_TRAN, RETHROW e]) s \<noteq> Inl (RuleError k, s')"
proof -
  obtain s1 where b: "BEGIN_TRAN s = Inr s1" and t: "trancount s1 \<noteq> 0"
    by (simp add: BEGIN_TRAN_def)
  show ?thesis
  proof (cases "INSERT_task now p s1")
    case (Inl x)
    obtain e s2 where x: "x = (e, s2)" by (cases x)
    have "e \<noteq> RuleError k" using Inl x INSERT_task_no_RuleError by blast
    then show ?thesis using b Inl x
      by (auto simp: TRY_CATCH_def ROLLBACK_TRAN_def RETHROW_def split: option.splits)
  next
    case (Inr s2)
    then show ?thesis using b
      by (auto simp: TRY_CATCH_def SELECT_idTask_def COMMIT_TRAN_def ROLLBACK_TRAN_def RETHROW_def
          split: option.splits sum.splits)
  qed
qed

text \<open>
  The order of the validations in the body of the procedure.  For all values of the
  parameters the body evaluates the eight validations in the order of the specification and
  raises exactly the error kind of the first violated one, in the unchanged session; when
  no validation is violated it raises no error kind at all (only the insert can still fail,
  with an error of the engine).  The conditions are read as the body evaluates them: blank
  means only spaces, the length of a string is \<^verbatim>\<open>LEN\<close> of it, and a \<^verbatim>\<open>NULL\<close> description,
  priority or due date passes its check.  The values are those the body reads, after the
  engine has converted the arguments of the call to the declared types of the parameters.
\<close>

lemma spTaskCreate_first_violation:
  "case spec_firstViolation (spec_createChecks now (tables s) p) of
     Some k \<Rightarrow> spTaskCreate now p s = Inl (RuleError k, s)
   | None \<Rightarrow> (\<forall>k s'. spTaskCreate now p s \<noteq> Inl (RuleError k, s'))"
  unfolding spTaskCreate_unfold spec_createChecks_def check_title_present check_len
    check_priority check_dueDate
  by (simp add: createTran_no_RuleError)

lemma spTaskCreate_first_violation_example:
  "spTaskCreate 0 exampleBlankCreate (openSession exampleStore) =
     Inl (RuleError titleRequired, openSession exampleStore)"
  using spTaskCreate_first_violation
    [where now = 0 and s = "openSession exampleStore" and p = exampleBlankCreate]
  by (simp add: spec_createChecks_def exampleBlankCreate_def)

section \<open>Create: the transaction\<close>

lemma spTaskCreate_RuleError_unchanged:
  "spTaskCreate now p s = Inl (RuleError k, s') \<Longrightarrow> s' = s"
  by (simp add: spTaskCreate_unfold createTran_no_RuleError split: if_splits)

lemma spTaskCreate_reaches_tran:
  assumes "spTaskCreate now p s = r" and "\<forall>k s'. r \<noteq> Inl (RuleError k, s')"
  shows "TRY_CATCH
        (block [BEGIN_TRAN, INSERT_task now p, SELECT_idTask scopeIdentity, COMMIT_TRAN])
        (\<lambda>e. block [ROLLBACK_TRAN, RETHROW e]) s = r"
  using assms by (auto simp add: spTaskCreate_unfold split: if_splits)

lemma INSERT_task_Inl:
  assumes "INSERT_task now p s = Inl (e, s')"
  shows "saved s' = saved s \<and> tranlog s' = tranlog s \<and> trancount s' = trancount s"
  using assms by (auto simp: INSERT_task_def Let_def split: if_splits)

lemma INSERT_task_Inr:
  assumes "INSERT_task now p s = Inr s'"
  shows "saved s' = saved s \<and> tranlog s' = tranlog s \<and> trancount s' = trancount s \<and>
         recordsets s' = recordsets s \<and>
         tblAccount (tables s') = tblAccount (tables s) \<and>
         tblUser (tables s') = tblUser (tables s) \<and>
         (\<exists>r. tblTask (tables s') = tblTask (tables s) @ [r])"
  using assms by (auto simp: INSERT_task_def Let_def split: if_splits)

lemma createTran_Inl:
  assumes t: "trancount s = 0"
    and r: "TRY_CATCH
        (block [BEGIN_TRAN, INSERT_task now p, SELECT_idTask scopeIdentity, COMMIT_TRAN])
        (\<lambda>e. block [ROLLBACK_TRAN, RETHROW e]) s = Inl (e, s')"
  shows "(\<exists>s1 s2. BEGIN_TRAN s = Inr s1 \<and> INSERT_task now p s1 = Inl (e, s2)) \<and>
         tranlog s' = tranlog s @ [BeginTran, RollbackTran] \<and> trancount s' = 0 \<and>
         saved s' = None \<and> recordsets s' = recordsets s \<and>
         tblTask (tables s') = tblTask (tables s) \<and>
         tblAccount (tables s') = tblAccount (tables s) \<and>
         tblUser (tables s') = tblUser (tables s)"
proof -
  obtain s1 where b: "BEGIN_TRAN s = Inr s1"
    and s1: "s1 = s\<lparr>saved := Some (tables s), trancount := 1, tranlog := tranlog s @ [BeginTran]\<rparr>"
    using t by (simp add: BEGIN_TRAN_def)
  show ?thesis
  proof (cases "INSERT_task now p s1")
    case (Inl x)
    obtain e2 s2 where x: "x = (e2, s2)" by (cases x)
    have i: "INSERT_task now p s1 = Inl (e2, s2)" using Inl x by simp
    have f: "saved s2 = Some (tables s)" "tranlog s2 = tranlog s @ [BeginTran]"
      using INSERT_task_Inl [OF i] s1 by simp_all
    have rs: "recordsets s2 = recordsets s"
      using i s1 by (auto simp: INSERT_task_def Let_def split: if_splits)
    from r b i f rs show ?thesis
      by (auto simp: TRY_CATCH_def ROLLBACK_TRAN_def RETHROW_def)
  next
    case (Inr s2)
    have "trancount s2 = 1" using INSERT_task_Inr [OF Inr] s1 by simp
    with r b Inr show ?thesis
      by (simp add: TRY_CATCH_def SELECT_idTask_def COMMIT_TRAN_def)
  qed
qed

lemma createTran_Inr:
  assumes t: "trancount s = 0"
    and r: "TRY_CATCH
        (block [BEGIN_TRAN, INSERT_task now p, SELECT_idTask scopeIdentity, COMMIT_TRAN])
        (\<lambda>e. block [ROLLBACK_TRAN, RETHROW e]) s = Inr s'"
  shows "tranlog s' = tranlog s @ [BeginTran, CommitTran] \<and> trancount s' = 0 \<and>
         saved s' = None \<and>
         tblAccount (tables s') = tblAccount (tables s) \<and>
         tblUser (tables s') = tblUser (tables s) \<and>
         (\<exists>r. tblTask (tables s') = tblTask (tables s) @ [r])"
proof -
  obtain s1 where b: "BEGIN_TRAN s = Inr s1"
    and s1: "s1 = s\<lparr>saved := Some (tables s), trancount := 1, tranlog := tranlog s @ [BeginTran]\<rparr>"
    using t by (simp add: BEGIN_TRAN_def)
  show ?thesis
  proof (cases "INSERT_task now p s1")
    case (Inl x)
    obtain e2 s2 where x: "x = (e2, s2)" by (cases x)
    have i: "INSERT_task now p s1 = Inl (e2, s2)" using Inl x by simp
    have f: "saved s2 = Some (tables s)"
      using INSERT_task_Inl [OF i] s1 by simp
    from r b i f show ?thesis
      by (auto simp: TRY_CATCH_def ROLLBACK_TRAN_def RETHROW_def)
  next
    case (Inr s2)
    have f: "trancount s2 = 1" "tranlog s2 = tranlog s @ [BeginTran]"
      "tblAccount (tables s2) = tblAccount (tables s)"
      "tblUser (tables s2) = tblUser (tables s)"
      "\<exists>r. tblTask (tables s2) = tblTask (tables s) @ [r]"
      using INSERT_task_Inr [OF Inr] s1 by simp_all
    with r b Inr show ?thesis
      by (auto simp: TRY_CATCH_def SELECT_idTask_def COMMIT_TRAN_def)
  qed
qed

text \<open>
  C2 (amended).  In a session with no open transaction, every error kind of Create,
  those of the account, user and title checks included, is raised before
  \<^verbatim>\<open>BEGIN TRAN\<close>: the session is unchanged and its transaction log has no new entry.
  Only the insert runs inside the transaction.  When the insert fails, the error of the
  call is the error the insert raised, the transaction is rolled back and the rows of the
  three tables are those before the call; when it succeeds, the transaction is committed
  and the task table has exactly one row more.
\<close>

theorem spTaskCreate_transaction:
  assumes "trancount s = 0"
  shows "(\<forall>k s'. spTaskCreate now p s = Inl (RuleError k, s') \<longrightarrow> s' = s) \<and>
    (\<forall>e s'. spTaskCreate now p s = Inl (e, s') \<and> (\<forall>k. e \<noteq> RuleError k) \<longrightarrow>
       (\<exists>s1 s2. BEGIN_TRAN s = Inr s1 \<and> INSERT_task now p s1 = Inl (e, s2)) \<and>
       tranlog s' = tranlog s @ [BeginTran, RollbackTran] \<and> trancount s' = 0 \<and>
       tblTask (tables s') = tblTask (tables s) \<and>
       tblAccount (tables s') = tblAccount (tables s) \<and>
       tblUser (tables s') = tblUser (tables s)) \<and>
    (\<forall>s'. spTaskCreate now p s = Inr s' \<longrightarrow>
       tranlog s' = tranlog s @ [BeginTran, CommitTran] \<and> trancount s' = 0 \<and>
       tblAccount (tables s') = tblAccount (tables s) \<and>
       tblUser (tables s') = tblUser (tables s) \<and>
       (\<exists>r. tblTask (tables s') = tblTask (tables s) @ [r]))"
proof (intro conjI allI impI)
  fix k s' assume "spTaskCreate now p s = Inl (RuleError k, s')"
  then show "s' = s" by (rule spTaskCreate_RuleError_unchanged)
next
  fix e s' assume a: "spTaskCreate now p s = Inl (e, s') \<and> (\<forall>k. e \<noteq> RuleError k)"
  then have "TRY_CATCH
        (block [BEGIN_TRAN, INSERT_task now p, SELECT_idTask scopeIdentity, COMMIT_TRAN])
        (\<lambda>e. block [ROLLBACK_TRAN, RETHROW e]) s = Inl (e, s')"
    by (intro spTaskCreate_reaches_tran) auto
  note c = createTran_Inl [OF assms this]
  from c show "\<exists>s1 s2. BEGIN_TRAN s = Inr s1 \<and> INSERT_task now p s1 = Inl (e, s2)" by blast
  from c show "tranlog s' = tranlog s @ [BeginTran, RollbackTran]" by blast
  from c show "trancount s' = 0" by blast
  from c show "tblTask (tables s') = tblTask (tables s)" by blast
  from c show "tblAccount (tables s') = tblAccount (tables s)" by blast
  from c show "tblUser (tables s') = tblUser (tables s)" by blast
next
  fix s' assume a: "spTaskCreate now p s = Inr s'"
  then have "TRY_CATCH
        (block [BEGIN_TRAN, INSERT_task now p, SELECT_idTask scopeIdentity, COMMIT_TRAN])
        (\<lambda>e. block [ROLLBACK_TRAN, RETHROW e]) s = Inr s'"
    by (intro spTaskCreate_reaches_tran) auto
  note c = createTran_Inr [OF assms this]
  from c show "tranlog s' = tranlog s @ [BeginTran, CommitTran]" by blast
  from c show "trancount s' = 0" by blast
  from c show "tblAccount (tables s') = tblAccount (tables s)" by blast
  from c show "tblUser (tables s') = tblUser (tables s)" by blast
  from c show "\<exists>r. tblTask (tables s') = tblTask (tables s) @ [r]" by blast
qed


lemmas example_simps =
  openSession_def exampleStore_def accountExists_def userExists_def titleTaken_def
  sameTitle_def strEq_def RTRIM_def LTRIM_def LEN_def CAST_DATE_def taskExists_def ownTask_def

text \<open>
  C2 as stated fails: a request that passes the validations 1 to 5 and names an account
  that does not exist is refused by the account check while the transaction log of the
  session is still empty, so the check did not execute inside a transaction.
\<close>

theorem spTaskCreate_checks_outside_transaction_counterexample:
  "spec_firstViolation (take 5 (spec_createChecks 0 exampleStore exampleNoAccountCreate)) = None \<and>
   spTaskCreate 0 exampleNoAccountCreate (openSession exampleStore) =
     Inl (RuleError accountDoesntExist, openSession exampleStore) \<and>
   tranlog (openSession exampleStore) = []"
  by (simp add: spec_createChecks_def spTaskCreate_unfold exampleNoAccountCreate_def example_simps)

theorem spTaskCreate_transaction_witness:
  "trancount (openSession exampleStore) = 0 \<and>
   (\<exists>s'. spTaskCreate 0 exampleNullCreate (openSession exampleStore) = Inl (CannotInsertNull, s') \<and>
      tranlog s' = [BeginTran, RollbackTran] \<and> trancount s' = 0 \<and>
      tblTask (tables s') = tblTask exampleStore)"
proof -
  have t: "trancount (openSession exampleStore) = 0" by (simp add: openSession_def)
  obtain s' where
    o: "spTaskCreate 0 exampleNullCreate (openSession exampleStore) = Inl (CannotInsertNull, s')"
    by (simp add: spTaskCreate_unfold exampleNullCreate_def example_simps TRY_CATCH_def
        BEGIN_TRAN_def INSERT_task_def ROLLBACK_TRAN_def RETHROW_def)
  from spTaskCreate_transaction [OF t, where now = 0 and p = exampleNullCreate] o
  have "tranlog s' = tranlog (openSession exampleStore) @ [BeginTran, RollbackTran] \<and>
        trancount s' = 0 \<and> tblTask (tables s') = tblTask (tables (openSession exampleStore))"
    by blast
  with t o show ?thesis by (simp add: openSession_def)
qed


section \<open>List: the order of the result\<close>

lemma set_insertBy: "set (insertBy le x xs) = insert x (set xs)"
  by (induction xs) auto

lemma sorted_insertBy:
  assumes total: "\<And>a b. le a b \<or> le b a"
    and trans: "\<And>a b c. le a b \<Longrightarrow> le b c \<Longrightarrow> le a c"
    and "sorted_wrt le xs"
  shows "sorted_wrt le (insertBy le x xs)"
  using assms(3)
proof (induction xs)
  case Nil
  then show ?case by simp
next
  case (Cons y ys)
  show ?case
  proof (cases "le x y")
    case True
    then show ?thesis using Cons.prems trans by auto
  next
    case False
    then have "le y x" using total by blast
    then show ?thesis using Cons False by (auto simp: set_insertBy)
  qed
qed

lemma set_ORDER_BY: "set (ORDER_BY le xs) = set xs"
  by (induction xs) (simp_all add: ORDER_BY_def set_insertBy)

lemma sorted_ORDER_BY:
  assumes "\<And>a b. le a b \<or> le b a"
    and "\<And>a b c. le a b \<Longrightarrow> le b c \<Longrightarrow> le a c"
  shows "sorted_wrt le (ORDER_BY le xs)"
proof (induction xs)
  case Nil
  then show ?case by (simp add: ORDER_BY_def)
next
  case (Cons x xs)
  have "ORDER_BY le (x # xs) = insertBy le x (ORDER_BY le xs)" by (simp add: ORDER_BY_def)
  then show ?case using sorted_insertBy [of le, OF assms Cons.IH] by simp
qed

lemma ascNullable_total: "ascNullable a b \<or> a = b \<or> ascNullable b a"
  by (cases a; cases b) auto

lemma ascNullable_trans: "ascNullable a b \<Longrightarrow> ascNullable b c \<Longrightarrow> ascNullable a c"
  by (cases a; cases b; cases c) auto

lemma ascNullable_irrefl: "\<not> ascNullable a a"
  by (cases a) auto

lemma listOrder_total: "listOrder a b \<or> listOrder b a"
  using ascNullable_total [of "dueDate a" "dueDate b"]
  by (auto simp: listOrder_def)

lemma listOrder_trans:
  assumes "listOrder a b" and "listOrder b c"
  shows "listOrder a c"
proof -
  consider "priority a > priority b" | "priority a = priority b" "ascNullable (dueDate a) (dueDate b)"
    | "priority a = priority b" "dueDate a = dueDate b" "dateCreated a \<ge> dateCreated b"
    using assms(1) by (auto simp: listOrder_def)
  then show ?thesis
  proof cases
    case 1
    then show ?thesis using assms(2) by (auto simp: listOrder_def)
  next
    case 2
    then show ?thesis using assms(2) ascNullable_trans [of "dueDate a" "dueDate b" "dueDate c"]
      by (auto simp: listOrder_def)
  next
    case 3
    then show ?thesis using assms(2) by (auto simp: listOrder_def)
  qed
qed

lemma column_taskColumns:
  "column ''priority'' (taskColumns t) = SqlInt (int (priority t))"
  "column ''dueDate'' (taskColumns t) = (case dueDate t of None \<Rightarrow> SqlNull | Some d \<Rightarrow> SqlDate d)"
  "column ''dateCreated'' (taskColumns t) = SqlDateTime (dateCreated t)"
  by (simp_all add: column_def taskColumns_def)

lemma rowOrder_taskColumns:
  "rowOrderBy ascNullsFirst (taskColumns a) (taskColumns b) = listOrder a b"
  by (cases "dueDate a"; cases "dueDate b")
    (simp_all add: rowOrderBy_def column_taskColumns listOrder_def)


lemma spTaskList_unfold:
  "spTaskList p s =
    (if \<not> accountExists (tables s) (l_idAccount p) then Inl (RuleError accountDoesntExist, s)
     else if \<not> userExists (tables s) (l_idUser p) (l_idAccount p)
       then Inl (RuleError userDoesntExist, s)
     else if (case l_status p of None \<Rightarrow> False | Some n \<Rightarrow> \<not> (0 \<le> n \<and> n \<le> 1))
       then Inl (RuleError invalidStatus, s)
     else if (case l_priority p of None \<Rightarrow> False | Some n \<Rightarrow> \<not> (0 \<le> n \<and> n \<le> 2))
       then Inl (RuleError invalidPriority, s)
     else SELECT_tasks (\<lambda>db. ORDER_BY listOrder (filter (listWhere p) (tblTask db))) s)"
  by (simp only: spTaskList_def block_IF_THROW block_single)

lemma sorted_listOrder: "sorted_wrt listOrder (ORDER_BY listOrder ts)"
  by (rule sorted_ORDER_BY) (rule listOrder_total, erule listOrder_trans, assumption)

lemma sorted_rows:
  "sorted_wrt (rowOrderBy ascNullsFirst) (map taskColumns (ORDER_BY listOrder ts))"
  by (simp add: sorted_wrt_map rowOrder_taskColumns sorted_listOrder)

text \<open>
  C3 (amended).  For every List call and every store, the call returns one result set and
  leaves the store as it was; the rows are the selected tasks (not deleted, of the account
  and user, matching the filters), sorted by priority descending, then by due date
  ascending with the tasks whose due date is \<^verbatim>\<open>NULL\<close> first, then by creation date
  descending.
\<close>

theorem spTaskList_sorted:
  assumes "execute (spTaskList p) db = (Inr rs, db')"
  shows "\<exists>rows. rs = [rows] \<and> db' = db \<and>
           sorted_wrt (rowOrderBy ascNullsFirst) rows \<and>
           set rows = taskColumns ` {t \<in> set (tblTask db). listWhere p t}"
proof -
  let ?rows = "map taskColumns (ORDER_BY listOrder (filter (listWhere p) (tblTask db)))"
  have "rs = [?rows] \<and> db' = db"
    using assms
    by (auto simp: execute_def openSession_def spTaskList_unfold SELECT_tasks_def
        split: if_splits)
  moreover have "sorted_wrt (rowOrderBy ascNullsFirst) ?rows" by (rule sorted_rows)
  moreover have "set ?rows = taskColumns ` {t \<in> set (tblTask db). listWhere p t}"
    by (simp add: set_ORDER_BY)
  ultimately show ?thesis by blast
qed

theorem spTaskList_sorted_witness:
  "execute (spTaskList exampleList) exampleStore =
     (Inr [map taskColumns
        [tblTask exampleStore ! 0, tblTask exampleStore ! 1, tblTask exampleStore ! 2,
         tblTask exampleStore ! 5]], exampleStore) \<and>
   sorted_wrt (rowOrderBy ascNullsFirst)
     (map taskColumns
        [tblTask exampleStore ! 0, tblTask exampleStore ! 1, tblTask exampleStore ! 2,
         tblTask exampleStore ! 5])"
proof -
  have e: "execute (spTaskList exampleList) exampleStore =
     (Inr [map taskColumns
        [tblTask exampleStore ! 0, tblTask exampleStore ! 1, tblTask exampleStore ! 2,
         tblTask exampleStore ! 5]], exampleStore)"
    by (simp add: execute_def spTaskList_unfold SELECT_tasks_def exampleList_def example_simps
        listWhere_def ORDER_BY_def listOrder_def)
  from spTaskList_sorted [OF e] e show ?thesis by simp
qed

text \<open>
  C3 as stated fails: among the tasks of user 1 the list returns the task without a due
  date before the task of the same priority that is due on day 15, so the result is not
  sorted with \<^verbatim>\<open>NULL\<close> due dates last.
\<close>

theorem spTaskList_nulls_last_counterexample:
  "execute (spTaskList exampleList) exampleStore =
     (Inr [map taskColumns
        [tblTask exampleStore ! 0, tblTask exampleStore ! 1, tblTask exampleStore ! 2,
         tblTask exampleStore ! 5]], exampleStore) \<and>
   dueDate (tblTask exampleStore ! 1) = None \<and>
   dueDate (tblTask exampleStore ! 2) = Some 15 \<and>
   priority (tblTask exampleStore ! 1) = priority (tblTask exampleStore ! 2) \<and>
   \<not> sorted_wrt (rowOrderBy spec_ascNullsLast)
     (map taskColumns
        [tblTask exampleStore ! 0, tblTask exampleStore ! 1, tblTask exampleStore ! 2,
         tblTask exampleStore ! 5])"
  by (simp add: execute_def spTaskList_unfold SELECT_tasks_def exampleList_def example_simps
      listWhere_def ORDER_BY_def listOrder_def rowOrderBy_def column_taskColumns)


section \<open>The handlers: the status of an error of the rule engine\<close>

lemma spTaskGet_unfold:
  "spTaskGet p s =
    (if \<not> accountExists (tables s) (k_idAccount p) then Inl (RuleError accountDoesntExist, s)
     else if \<not> userExists (tables s) (k_idUser p) (k_idAccount p)
       then Inl (RuleError userDoesntExist, s)
     else if \<not> taskExists (tables s) (k_idTask p) (k_idAccount p) (k_idUser p)
       then Inl (RuleError taskDoesntExist, s)
     else SELECT_tasks
        (\<lambda>db. filter (ownTask (k_idTask p) (k_idAccount p) (k_idUser p)) (tblTask db)) s)"
  by (simp only: spTaskGet_def block_IF_THROW block_single)

lemma spTaskDelete_unfold:
  "spTaskDelete now p s =
    (if \<not> accountExists (tables s) (k_idAccount p) then Inl (RuleError accountDoesntExist, s)
     else if \<not> userExists (tables s) (k_idUser p) (k_idAccount p)
       then Inl (RuleError userDoesntExist, s)
     else if \<not> taskExists (tables s) (k_idTask p) (k_idAccount p) (k_idUser p)
       then Inl (RuleError taskDoesntExist, s)
     else TRY_CATCH
        (block [BEGIN_TRAN, UPDATE_deleted now p, SELECT_idTask (\<lambda>s. k_idTask p), COMMIT_TRAN])
        (\<lambda>e. block [ROLLBACK_TRAN, RETHROW e]) s)"
  by (simp only: spTaskDelete_def block_IF_THROW block_single)

lemma spTaskUpdate_unfold:
  "spTaskUpdate now p s =
    (if (case u_title p of None \<Rightarrow> True | Some t \<Rightarrow> strEq (LTRIM (RTRIM t)) [])
       then Inl (RuleError titleRequired, s)
     else if (case u_title p of None \<Rightarrow> False | Some t \<Rightarrow> LEN t > 100)
       then Inl (RuleError titleExceedsMaxLength, s)
     else if (case u_description p of None \<Rightarrow> False | Some d \<Rightarrow> LEN d > 500)
       then Inl (RuleError descriptionExceedsMaxLength, s)
     else if (case u_priority p of None \<Rightarrow> False | Some n \<Rightarrow> \<not> (0 \<le> n \<and> n \<le> 2))
       then Inl (RuleError invalidPriority, s)
     else if (case u_status p of None \<Rightarrow> False | Some n \<Rightarrow> \<not> (0 \<le> n \<and> n \<le> 1))
       then Inl (RuleError invalidStatus, s)
     else if (case u_dueDate p of None \<Rightarrow> False | Some d \<Rightarrow> d < CAST_DATE now)
       then Inl (RuleError dueDateInPast, s)
     else if \<not> accountExists (tables s) (u_idAccount p)
       then Inl (RuleError accountDoesntExist, s)
     else if \<not> userExists (tables s) (u_idUser p) (u_idAccount p)
       then Inl (RuleError userDoesntExist, s)
     else if \<not> taskExists (tables s) (u_idTask p) (u_idAccount p) (u_idUser p)
       then Inl (RuleError taskDoesntExist, s)
     else if titleTakenByOther (tables s) (u_idAccount p) (u_idUser p) (u_title p) (u_idTask p)
       then Inl (RuleError titleAlreadyExists, s)
     else TRY_CATCH
        (block [BEGIN_TRAN, UPDATE_task now p, SELECT_idTask (\<lambda>s. u_idTask p), COMMIT_TRAN])
        (\<lambda>e. block [ROLLBACK_TRAN, RETHROW e]) s)"
  by (simp only: spTaskUpdate_def block_IF_THROW block_single)

lemma catchBlock_RuleError:
  "catchBlock st (RequestError (RuleError k)) = Status st (errorResponse (kindName k) None [])"
  by (simp add: catchBlock_def)

text \<open>
  C4 (amended).  The status of a rule-engine error depends on the handler and not on the
  error kind: whenever the engine raises an error kind under POST /task, GET /task or
  PUT /task/:id the handler answers 400 with the kind as message, and whenever it raises
  one under GET /task/:id or DELETE /task/:id the handler answers 404 with the kind as
  message.
\<close>

theorem handler_status_of_rule_error:
  "(createBodySchema js b = Inr v \<and>
      taskCreate now db (createRequest js v) = (Inl (RuleError k), db') \<longrightarrow>
      postHandler js now db b = (Status 400 (errorResponse (kindName k) None []), db')) \<and>
   (listQuerySchema js q = Inr r \<and> taskList db r = (Inl (RuleError k), db') \<longrightarrow>
      getListHandler js db q = (Status 400 (errorResponse (kindName k) None []), db')) \<and>
   (idParamsSchema js i = Inr tid \<and> keyQuerySchema js kq = Inr (a, u) \<and>
      taskGet db \<lparr>gr_idAccount = a, gr_idUser = u, gr_idTask = tid\<rparr> = (Inl (RuleError k), db') \<longrightarrow>
      getHandler js db i kq = (Status 404 (errorResponse (kindName k) None []), db')) \<and>
   (idParamsSchema js i = Inr tid \<and> updateBodySchema js ub = Inr uv \<and>
      taskUpdate now db (updateRequest js tid uv) = (Inl (RuleError k), db') \<longrightarrow>
      putHandler js now db i ub = (Status 400 (errorResponse (kindName k) None []), db')) \<and>
   (idParamsSchema js i = Inr tid \<and> keyQuerySchema js kq = Inr (a, u) \<and>
      taskDelete now db \<lparr>gr_idAccount = a, gr_idUser = u, gr_idTask = tid\<rparr> =
        (Inl (RuleError k), db') \<longrightarrow>
      deleteHandler js now db i kq = (Status 404 (errorResponse (kindName k) None []), db'))"
  by (simp add: postHandler_def getListHandler_def getHandler_def putHandler_def
      deleteHandler_def catchBlock_RuleError HTTP_STATUS_BAD_REQUEST_def
      HTTP_STATUS_NOT_FOUND_def)

lemmas handler_simps =
  putHandler_def getHandler_def deleteHandler_def postHandler_def getListHandler_def
  idParamsSchema_def keyQuerySchema_def updateBodySchema_def createBodySchema_def
  listQuerySchema_def zCoercePositive_def coerceNumber_def zCoerceRangeOptional_def
  zFK_def zNumber_def failing_def zString_def zIntRange_def zNullableString_def
  zNullableDateString_def zDateString_def
  optional_def nullable_def issue_def flatten_def toDate_def createRequest_def updateRequest_def
  taskCreate_def taskUpdate_def taskGet_def taskDelete_def taskList_def execute_def NVARCHAR_def
  catchBlock_def HTTP_STATUS_BAD_REQUEST_def HTTP_STATUS_NOT_FOUND_def HTTP_STATUS_OK_def
  HTTP_STATUS_CREATED_def exampleRuntime_def

theorem handler_status_of_rule_error_witness:
  "deleteHandler exampleRuntime 0 exampleStore ''4''
      \<lparr>kq_idAccount = Some ''1'', kq_idUser = Some ''1''\<rparr> =
     (Status 404 (errorResponse ''taskDoesntExist'' None []), exampleStore)"
proof -
  have a: "idParamsSchema exampleRuntime ''4'' = Inr 4"
    by (simp add: handler_simps)
  have b: "keyQuerySchema exampleRuntime \<lparr>kq_idAccount = Some ''1'', kq_idUser = Some ''1''\<rparr> =
      Inr (1, 1)"
    by (simp add: handler_simps Let_def)
  have c: "taskDelete 0 exampleStore \<lparr>gr_idAccount = 1, gr_idUser = 1, gr_idTask = 4\<rparr> =
      (Inl (RuleError taskDoesntExist), exampleStore)"
    by (simp add: taskDelete_def execute_def spTaskDelete_unfold example_simps)
  from handler_status_of_rule_error
    [where js = exampleRuntime and now = 0 and db = exampleStore and i = "''4''" and tid = 4
      and kq = "\<lparr>kq_idAccount = Some ''1'', kq_idUser = Some ''1''\<rparr>" and a = 1 and u = 1
      and k = taskDoesntExist and db' = exampleStore] a b c
  show ?thesis by simp
qed


text \<open>
  C4 as stated fails in both directions: PUT /task/:id answers 400 to \<open>taskDoesntExist\<close>,
  and GET /task/:id answers 404 to \<open>accountDoesntExist\<close>.
\<close>

theorem handler_status_counterexample:
  "putHandler exampleRuntime 0 exampleStore ''9'' exampleUpdateBody =
     (Status 400 (errorResponse ''taskDoesntExist'' None []), exampleStore) \<and>
   spec_httpStatus taskDoesntExist = 404 \<and>
   getHandler exampleRuntime exampleStore ''1'' \<lparr>kq_idAccount = Some ''9'', kq_idUser = Some ''1''\<rparr> =
     (Status 404 (errorResponse ''accountDoesntExist'' None []), exampleStore) \<and>
   spec_httpStatus accountDoesntExist = 400"
  by (simp add: handler_simps exampleUpdateBody_def spTaskUpdate_unfold spTaskGet_unfold
      example_simps spec_httpStatus_def Let_def)


text \<open>
  A number that fails two checks of its schema raises two issues: \<open>-1.5\<close> as
  \<^verbatim>\<open>idAccount\<close> is neither an integer nor positive.  A value that is not a number raises
  one.
\<close>

lemma zFK_issues_examples:
  "issue ''idAccount'' (zFK (JFraction (- 2))) = [''idAccount'', ''idAccount'']"
  "issue ''idAccount'' (zFK (JNumber 0)) = [''idAccount'']"
  "issue ''idAccount'' (zFK (JString ''1'')) = [''idAccount'']"
  "issue ''idAccount'' (zFK (JNumber 1)) = []"
  by (simp_all add: zFK_def zNumber_def failing_def issue_def numeral_2_eq_2)


section \<open>Create: title uniqueness and deleted rows\<close>

lemma createChecks7:
  assumes "spec_firstViolation (take 7 (spec_createChecks now db p)) = None"
  shows "\<not> (case c_title p of None \<Rightarrow> True | Some t \<Rightarrow> strEq (LTRIM (RTRIM t)) [])"
    and "\<not> (case c_title p of None \<Rightarrow> False | Some t \<Rightarrow> LEN t > 100)"
    and "\<not> (case c_description p of None \<Rightarrow> False | Some d \<Rightarrow> LEN d > 500)"
    and "\<not> (case c_priority p of None \<Rightarrow> False | Some n \<Rightarrow> \<not> (0 \<le> n \<and> n \<le> 2))"
    and "\<not> (case c_dueDate p of None \<Rightarrow> False | Some d \<Rightarrow> d < CAST_DATE now)"
    and "accountExists db (c_idAccount p)"
    and "userExists db (c_idUser p) (c_idAccount p)"
  using assms
  unfolding spec_createChecks_def check_title_present check_len check_priority check_dueDate
  by (simp_all split: if_splits)

lemma spTaskCreate_valid:
  assumes "spec_firstViolation (take 7 (spec_createChecks now (tables s) p)) = None"
  shows "spTaskCreate now p s =
    (if titleTaken (tables s) (c_idAccount p) (c_idUser p) (c_title p)
       then Inl (RuleError titleAlreadyExists, s)
     else TRY_CATCH
        (block [BEGIN_TRAN, INSERT_task now p, SELECT_idTask scopeIdentity, COMMIT_TRAN])
        (\<lambda>e. block [ROLLBACK_TRAN, RETHROW e]) s)"
  using createChecks7 [OF assms] by (simp only: spTaskCreate_unfold if_False if_True simp_thms)


lemma INSERT_task_succeeds:
  assumes p: "c_idAccount p = Some a" "c_idUser p = Some u" "c_title p = Some ttl"
      "c_description p = Some d" "c_priority p = Some n"
    and n: "n \<le> 2"
    and acc: "accountExists (tables s) (Some a)"
    and usr: "userExists (tables s) (Some u) (Some a)"
    and fresh: "\<forall>t \<in> set (tblTask (tables s)). idTask t \<le> identTask (tables s)"
    and free: "\<forall>t \<in> set (tblTask (tables s)).
        idAccount t = a \<and> idUser t = u \<and> strEq (title t) ttl \<longrightarrow> deleted t"
  shows "INSERT_task now p s =
     Inr (s\<lparr>tables := (tables s)\<lparr>identTask := identTask (tables s) + 1,
               tblTask := tblTask (tables s) @
                 [\<lparr>idTask = identTask (tables s) + 1, idAccount = a, idUser = u, title = ttl,
                   description = d, priority = n, dueDate = c_dueDate p, status = 0,
                   dateCreated = now, dateModified = now, deleted = False\<rparr>]\<rparr>,
             scopeIdentity := Some (identTask (tables s) + 1)\<rparr>)"
proof -
  have pk: "\<forall>t \<in> set (tblTask (tables s)). idTask t \<noteq> identTask (tables s) + 1"
    using fresh by fastforce
  have fa: "a \<in> set (tblAccount (tables s))"
    using acc by (auto simp: accountExists_def)
  have fu: "u \<in> fst ` set (tblUser (tables s))"
    using usr by (force simp: userExists_def)
  show ?thesis
    using p n pk fa fu free
    by (auto simp: INSERT_task_def Let_def chkTask_Priority_def chkTask_Status_def
        pkTask_conflict_def uqTask_Account_User_Title_conflict_def fkTask_Account_def
        fkTask_User_def)
qed

text \<open>
  C5.  Title uniqueness ignores soft-deleted rows.  For a Create that passes the first
  seven validations: when a task of the same account and user that is not deleted has the
  same title, the call fails with \<open>titleAlreadyExists\<close> and changes nothing; when every
  task of the same account and user with the same title is deleted, the call succeeds (in
  a session without an open transaction, for a description and a priority that are not
  \<^verbatim>\<open>NULL\<close>, in a store whose identity counter is not below a stored key) and appends the
  new row.  Titles are compared as the engine compares them (\<open>strEq\<close>).
\<close>

theorem create_title_uniqueness:
  assumes valid: "spec_firstViolation (take 7 (spec_createChecks now (tables s) p)) = None"
    and p: "c_idAccount p = Some a" "c_idUser p = Some u" "c_title p = Some ttl"
  shows
    "((\<exists>t \<in> set (tblTask (tables s)).
          idAccount t = a \<and> idUser t = u \<and> strEq (title t) ttl \<and> \<not> deleted t) \<longrightarrow>
        spTaskCreate now p s = Inl (RuleError titleAlreadyExists, s)) \<and>
     ((\<forall>t \<in> set (tblTask (tables s)).
          idAccount t = a \<and> idUser t = u \<and> strEq (title t) ttl \<longrightarrow> deleted t) \<and>
      trancount s = 0 \<and> c_description p = Some d \<and> c_priority p = Some n \<and>
      (\<forall>t \<in> set (tblTask (tables s)). idTask t \<le> identTask (tables s)) \<longrightarrow>
        (\<exists>s'. spTaskCreate now p s = Inr s' \<and>
           tblTask (tables s') = tblTask (tables s) @
             [\<lparr>idTask = identTask (tables s) + 1, idAccount = a, idUser = u, title = ttl,
               description = d, priority = n, dueDate = c_dueDate p, status = 0,
               dateCreated = now, dateModified = now, deleted = False\<rparr>] \<and>
           recordsets s' = recordsets s @ [[[(''idTask'', SqlInt (identTask (tables s) + 1))]]]))"
proof (intro conjI impI)
  assume "\<exists>t \<in> set (tblTask (tables s)).
          idAccount t = a \<and> idUser t = u \<and> strEq (title t) ttl \<and> \<not> deleted t"
  then have "titleTaken (tables s) (c_idAccount p) (c_idUser p) (c_title p)"
    using p by (auto simp: titleTaken_def sameTitle_def)
  then show "spTaskCreate now p s = Inl (RuleError titleAlreadyExists, s)"
    by (simp add: spTaskCreate_valid [OF valid])
next
  assume h: "(\<forall>t \<in> set (tblTask (tables s)).
          idAccount t = a \<and> idUser t = u \<and> strEq (title t) ttl \<longrightarrow> deleted t) \<and>
      trancount s = 0 \<and> c_description p = Some d \<and> c_priority p = Some n \<and>
      (\<forall>t \<in> set (tblTask (tables s)). idTask t \<le> identTask (tables s))"
  then have free: "\<not> titleTaken (tables s) (c_idAccount p) (c_idUser p) (c_title p)"
    using p by (auto simp: titleTaken_def sameTitle_def)
  have n: "n \<le> 2" using createChecks7(4) [OF valid] h by simp
  have acc: "accountExists (tables s) (Some a)" using createChecks7(6) [OF valid] p by simp
  have usr: "userExists (tables s) (Some u) (Some a)" using createChecks7(7) [OF valid] p by simp
  let ?s1 = "s\<lparr>saved := Some (tables s), trancount := 1, tranlog := tranlog s @ [BeginTran]\<rparr>"
  have b: "BEGIN_TRAN s = Inr ?s1" using h by (simp add: BEGIN_TRAN_def)
  have i: "INSERT_task now p ?s1 =
     Inr (?s1\<lparr>tables := (tables ?s1)\<lparr>identTask := identTask (tables ?s1) + 1,
               tblTask := tblTask (tables ?s1) @
                 [\<lparr>idTask = identTask (tables ?s1) + 1, idAccount = a, idUser = u, title = ttl,
                   description = d, priority = n, dueDate = c_dueDate p, status = 0,
                   dateCreated = now, dateModified = now, deleted = False\<rparr>]\<rparr>,
             scopeIdentity := Some (identTask (tables ?s1) + 1)\<rparr>)"
    using p h n acc usr by (intro INSERT_task_succeeds) simp_all
  show "\<exists>s'. spTaskCreate now p s = Inr s' \<and>
           tblTask (tables s') = tblTask (tables s) @
             [\<lparr>idTask = identTask (tables s) + 1, idAccount = a, idUser = u, title = ttl,
               description = d, priority = n, dueDate = c_dueDate p, status = 0,
               dateCreated = now, dateModified = now, deleted = False\<rparr>] \<and>
           recordsets s' = recordsets s @ [[[(''idTask'', SqlInt (identTask (tables s) + 1))]]]"
    using free b i
    by (simp add: spTaskCreate_valid [OF valid] TRY_CATCH_def SELECT_idTask_def COMMIT_TRAN_def)
qed


theorem create_title_uniqueness_witness:
  "spTaskCreate 0 exampleDuplicateCreate (openSession exampleStore) =
     Inl (RuleError titleAlreadyExists, openSession exampleStore) \<and>
   (\<exists>s'. spTaskCreate 0 exampleDeletedTitleCreate (openSession exampleStore) = Inr s' \<and>
      tblTask (tables s') = tblTask exampleStore @
        [\<lparr>idTask = 7, idAccount = 1, idUser = 1, title = ''Old task'', description = [],
          priority = 1, dueDate = None, status = 0, dateCreated = 0, dateModified = 0,
          deleted = False\<rparr>] \<and>
      recordsets s' = [[[(''idTask'', SqlInt 7)]]])"
proof -
  have v1: "spec_firstViolation
      (take 7 (spec_createChecks 0 (tables (openSession exampleStore)) exampleDuplicateCreate)) = None"
    by (simp add: spec_createChecks_def exampleDuplicateCreate_def example_simps)
  have v2: "spec_firstViolation
      (take 7 (spec_createChecks 0 (tables (openSession exampleStore)) exampleDeletedTitleCreate)) = None"
    by (simp add: spec_createChecks_def exampleDeletedTitleCreate_def example_simps)
  have a: "spTaskCreate 0 exampleDuplicateCreate (openSession exampleStore) =
     Inl (RuleError titleAlreadyExists, openSession exampleStore)"
    using create_title_uniqueness [OF v1, where a = 1 and u = 1 and ttl = "''Buy milk''"]
    by (simp add: exampleDuplicateCreate_def example_simps)
  have b: "\<exists>s'. spTaskCreate 0 exampleDeletedTitleCreate (openSession exampleStore) = Inr s' \<and>
      tblTask (tables s') = tblTask exampleStore @
        [\<lparr>idTask = 7, idAccount = 1, idUser = 1, title = ''Old task'', description = [],
          priority = 1, dueDate = None, status = 0, dateCreated = 0, dateModified = 0,
          deleted = False\<rparr>] \<and>
      recordsets s' = [[[(''idTask'', SqlInt 7)]]]"
    using create_title_uniqueness [OF v2, where a = 1 and u = 1 and ttl = "''Old task''"
        and d = "[]" and n = 1]
    by (simp add: exampleDeletedTitleCreate_def example_simps)
  from a b show ?thesis by simp
qed


section \<open>Update: title uniqueness\<close>

lemma check_status:
  "(case t of None \<Rightarrow> False | Some n \<Rightarrow> \<not> (0 \<le> n \<and> n \<le> (1::nat))) =
   (\<not> (case t of None \<Rightarrow> True | Some n \<Rightarrow> n \<in> {0..1}))"
  by (simp split: option.split)

lemma updateChecks9:
  assumes "spec_firstViolation (take 9 (spec_updateChecks now db p)) = None"
  shows "\<not> (case u_title p of None \<Rightarrow> True | Some t \<Rightarrow> strEq (LTRIM (RTRIM t)) [])"
    and "\<not> (case u_title p of None \<Rightarrow> False | Some t \<Rightarrow> LEN t > 100)"
    and "\<not> (case u_description p of None \<Rightarrow> False | Some d \<Rightarrow> LEN d > 500)"
    and "\<not> (case u_priority p of None \<Rightarrow> False | Some n \<Rightarrow> \<not> (0 \<le> n \<and> n \<le> 2))"
    and "\<not> (case u_status p of None \<Rightarrow> False | Some n \<Rightarrow> \<not> (0 \<le> n \<and> n \<le> 1))"
    and "\<not> (case u_dueDate p of None \<Rightarrow> False | Some d \<Rightarrow> d < CAST_DATE now)"
    and "accountExists db (u_idAccount p)"
    and "userExists db (u_idUser p) (u_idAccount p)"
    and "taskExists db (u_idTask p) (u_idAccount p) (u_idUser p)"
  using assms
  unfolding spec_updateChecks_def check_title_present check_len check_priority check_status
    check_dueDate
  by (simp_all split: if_splits)

lemma spTaskUpdate_valid:
  assumes "spec_firstViolation (take 9 (spec_updateChecks now (tables s) p)) = None"
  shows "spTaskUpdate now p s =
    (if titleTakenByOther (tables s) (u_idAccount p) (u_idUser p) (u_title p) (u_idTask p)
       then Inl (RuleError titleAlreadyExists, s)
     else TRY_CATCH
        (block [BEGIN_TRAN, UPDATE_task now p, SELECT_idTask (\<lambda>s. u_idTask p), COMMIT_TRAN])
        (\<lambda>e. block [ROLLBACK_TRAN, RETHROW e]) s)"
  using updateChecks9 [OF assms] by (simp only: spTaskUpdate_unfold if_False if_True simp_thms)

lemma strEq_sym: "strEq a b \<Longrightarrow> strEq b a"
  by (simp add: strEq_def)

lemma strEq_trans: "strEq a b \<Longrightarrow> strEq b c \<Longrightarrow> strEq a c"
  by (simp add: strEq_def)

lemma UPDATE_task_succeeds:
  assumes p: "u_idAccount p = Some a" "u_idUser p = Some u" "u_idTask p = Some i"
      "u_title p = Some ttl" "u_description p = Some d" "u_priority p = Some n"
      "u_status p = Some st"
    and n: "n \<le> 2" and st: "st \<le> 1"
    and free: "\<not> titleTakenByOther (tables s) (Some a) (Some u) (Some ttl) (Some i)"
  shows "UPDATE_task now p s =
     Inr (s\<lparr>tables := (tables s)\<lparr>tblTask :=
        map (\<lambda>t. if ownTask (Some i) (Some a) (Some u) t
                  then t\<lparr>title := ttl, description := d, priority := n, dueDate := u_dueDate p,
                         status := st, dateModified := now\<rparr>
                  else t) (tblTask (tables s))\<rparr>\<rparr>)"
proof (cases "\<exists>t \<in> set (tblTask (tables s)). ownTask (Some i) (Some a) (Some u) t")
  case False
  then have "map (\<lambda>t. if ownTask (Some i) (Some a) (Some u) t
                  then t\<lparr>title := ttl, description := d, priority := n, dueDate := u_dueDate p,
                         status := st, dateModified := now\<rparr>
                  else t) (tblTask (tables s)) = tblTask (tables s)"
    by (intro map_idI) auto
  then show ?thesis using False p by (simp add: UPDATE_task_def Let_def)
next
  case True
  let ?upd = "\<lambda>t. t\<lparr>title := ttl, description := d, priority := n, dueDate := u_dueDate p,
                         status := st, dateModified := now\<rparr>"
  let ?rows = "map (\<lambda>t. if ownTask (Some i) (Some a) (Some u) t then ?upd t else t)
      (tblTask (tables s))"
  have noconf: "\<not> uqTask_Account_User_Title_conflict ?rows (?upd t)"
    if t: "t \<in> set (tblTask (tables s))" "ownTask (Some i) (Some a) (Some u) t" for t
  proof
    assume "uqTask_Account_User_Title_conflict ?rows (?upd t)"
    then obtain t' where t': "t' \<in> set ?rows" "idTask t' \<noteq> idTask t" "\<not> deleted t'"
      "idAccount t' = idAccount t" "idUser t' = idUser t" "strEq (title t') ttl"
      by (auto simp: uqTask_Account_User_Title_conflict_def)
    from t'(1) obtain t0 where t0: "t0 \<in> set (tblTask (tables s))"
      "t' = (if ownTask (Some i) (Some a) (Some u) t0 then ?upd t0 else t0)" by auto
    have "\<not> ownTask (Some i) (Some a) (Some u) t0"
      using t0(2) t'(2) t(2) by (auto simp: ownTask_def split: if_splits)
    then have "t' = t0" using t0(2) by simp
    then have "titleTakenByOther (tables s) (Some a) (Some u) (Some ttl) (Some i)"
      using t0(1) t' t(2) by (auto simp: titleTakenByOther_def sameTitle_def ownTask_def)
    then show False using free by simp
  qed
  show ?thesis
    using True p n st noconf
    by (auto simp: UPDATE_task_def Let_def chkTask_Priority_def chkTask_Status_def)
qed


text \<open>
  C6.  The title check of Update excludes the updated task.  For an Update that passes
  the first nine validations (fields, account, user, existence and ownership of the task):
  when the new title is the current title of the task itself, the call succeeds and
  replaces the six columns of the task (in a store in which the unique index holds, in a
  session without an open transaction, for a description, a priority and a status that are
  not \<^verbatim>\<open>NULL\<close>); when another task of the same account and user that is not deleted has
  the new title, the call fails with \<open>titleAlreadyExists\<close> and changes nothing.
\<close>

theorem update_title_uniqueness:
  assumes valid: "spec_firstViolation (take 9 (spec_updateChecks now (tables s) p)) = None"
    and p: "u_idAccount p = Some a" "u_idUser p = Some u" "u_idTask p = Some i"
      "u_title p = Some ttl"
  shows
    "((\<forall>t \<in> set (tblTask (tables s)).
          idTask t = i \<and> idAccount t = a \<and> idUser t = u \<and> \<not> deleted t \<longrightarrow>
          strEq (title t) ttl) \<and>
      uqTask_Account_User_Title (tblTask (tables s)) \<and> trancount s = 0 \<and>
      u_description p = Some d \<and> u_priority p = Some n \<and> u_status p = Some st \<longrightarrow>
        (\<exists>s'. spTaskUpdate now p s = Inr s' \<and>
           tblTask (tables s') =
             map (\<lambda>t. if idTask t = i \<and> idAccount t = a \<and> idUser t = u \<and> \<not> deleted t
                       then t\<lparr>title := ttl, description := d, priority := n,
                              dueDate := u_dueDate p, status := st, dateModified := now\<rparr>
                       else t) (tblTask (tables s)) \<and>
           recordsets s' = recordsets s @ [[[(''idTask'', SqlInt i)]]])) \<and>
     ((\<exists>t \<in> set (tblTask (tables s)).
          idTask t \<noteq> i \<and> idAccount t = a \<and> idUser t = u \<and> \<not> deleted t \<and>
          strEq (title t) ttl) \<longrightarrow>
        spTaskUpdate now p s = Inl (RuleError titleAlreadyExists, s))"
proof (intro conjI impI)
  assume "\<exists>t \<in> set (tblTask (tables s)).
          idTask t \<noteq> i \<and> idAccount t = a \<and> idUser t = u \<and> \<not> deleted t \<and>
          strEq (title t) ttl"
  then have "titleTakenByOther (tables s) (u_idAccount p) (u_idUser p) (u_title p) (u_idTask p)"
    using p by (auto simp: titleTakenByOther_def sameTitle_def)
  then show "spTaskUpdate now p s = Inl (RuleError titleAlreadyExists, s)"
    by (simp add: spTaskUpdate_valid [OF valid])
next
  assume h: "(\<forall>t \<in> set (tblTask (tables s)).
          idTask t = i \<and> idAccount t = a \<and> idUser t = u \<and> \<not> deleted t \<longrightarrow>
          strEq (title t) ttl) \<and>
      uqTask_Account_User_Title (tblTask (tables s)) \<and> trancount s = 0 \<and>
      u_description p = Some d \<and> u_priority p = Some n \<and> u_status p = Some st"
  from updateChecks9(9) [OF valid] p obtain r where
    r: "r \<in> set (tblTask (tables s))" "idTask r = i" "idAccount r = a" "idUser r = u"
      "\<not> deleted r"
    by (auto simp: taskExists_def ownTask_def)
  have rt: "strEq (title r) ttl" using h r by blast
  have free: "\<not> titleTakenByOther (tables s) (Some a) (Some u) (Some ttl) (Some i)"
  proof
    assume "titleTakenByOther (tables s) (Some a) (Some u) (Some ttl) (Some i)"
    then obtain t where t: "t \<in> set (tblTask (tables s))" "idAccount t = a" "idUser t = u"
      "strEq (title t) ttl" "idTask t \<noteq> i" "\<not> deleted t"
      by (auto simp: titleTakenByOther_def sameTitle_def)
    have "strEq (title r) (title t)" using rt t(4) by (simp add: strEq_def)
    then have "uqTask_Account_User_Title_conflict (tblTask (tables s)) t"
      unfolding uqTask_Account_User_Title_conflict_def
      using r t by (intro conjI bexI [of _ r]) auto
    then show False using h t(1) by (auto simp: uqTask_Account_User_Title_def)
  qed
  have n: "n \<le> 2" using updateChecks9(4) [OF valid] h by simp
  have st: "st \<le> 1" using updateChecks9(5) [OF valid] h by simp
  let ?s1 = "s\<lparr>saved := Some (tables s), trancount := 1, tranlog := tranlog s @ [BeginTran]\<rparr>"
  have b: "BEGIN_TRAN s = Inr ?s1" using h by (simp add: BEGIN_TRAN_def)
  have f1: "\<not> titleTakenByOther (tables ?s1) (Some a) (Some u) (Some ttl) (Some i)"
    using free by simp
  have q: "u_description p = Some d" "u_priority p = Some n" "u_status p = Some st"
    using h by simp_all
  note i = UPDATE_task_succeeds [OF p q n st f1, of now]
  have o: "ownTask (Some i) (Some a) (Some u) =
      (\<lambda>t. idTask t = i \<and> idAccount t = a \<and> idUser t = u \<and> \<not> deleted t)"
    by (auto simp: ownTask_def fun_eq_iff)
  show "\<exists>s'. spTaskUpdate now p s = Inr s' \<and>
           tblTask (tables s') =
             map (\<lambda>t. if idTask t = i \<and> idAccount t = a \<and> idUser t = u \<and> \<not> deleted t
                       then t\<lparr>title := ttl, description := d, priority := n,
                              dueDate := u_dueDate p, status := st, dateModified := now\<rparr>
                       else t) (tblTask (tables s)) \<and>
           recordsets s' = recordsets s @ [[[(''idTask'', SqlInt i)]]]"
    using free p b i
    by (simp add: spTaskUpdate_valid [OF valid] TRY_CATCH_def SELECT_idTask_def COMMIT_TRAN_def o)
qed


theorem update_title_uniqueness_witness:
  "(\<exists>s'. spTaskUpdate 9 exampleKeepTitleUpdate (openSession exampleStore) = Inr s' \<and>
      tblTask (tables s') ! 1 =
        \<lparr>idTask = 2, idAccount = 1, idUser = 1, title = ''Pay rent'', description = ''monthly'',
         priority = 2, dueDate = None, status = 1, dateCreated = 200, dateModified = 9,
         deleted = False\<rparr> \<and>
      recordsets s' = [[[(''idTask'', SqlInt 2)]]]) \<and>
   spTaskUpdate 9 exampleTakenTitleUpdate (openSession exampleStore) =
     Inl (RuleError titleAlreadyExists, openSession exampleStore)"
proof -
  have v1: "spec_firstViolation
      (take 9 (spec_updateChecks 9 (tables (openSession exampleStore)) exampleKeepTitleUpdate)) = None"
    by (simp add: spec_updateChecks_def exampleKeepTitleUpdate_def example_simps)
  have v2: "spec_firstViolation
      (take 9 (spec_updateChecks 9 (tables (openSession exampleStore)) exampleTakenTitleUpdate)) = None"
    by (simp add: spec_updateChecks_def exampleTakenTitleUpdate_def example_simps)
  have u: "uqTask_Account_User_Title (tblTask exampleStore)"
    by (simp add: uqTask_Account_User_Title_def uqTask_Account_User_Title_conflict_def
        example_simps)
  have a: "\<exists>s'. spTaskUpdate 9 exampleKeepTitleUpdate (openSession exampleStore) = Inr s' \<and>
      tblTask (tables s') ! 1 =
        \<lparr>idTask = 2, idAccount = 1, idUser = 1, title = ''Pay rent'', description = ''monthly'',
         priority = 2, dueDate = None, status = 1, dateCreated = 200, dateModified = 9,
         deleted = False\<rparr> \<and>
      recordsets s' = [[[(''idTask'', SqlInt 2)]]]"
    using update_title_uniqueness [OF v1, where a = 1 and u = 1 and i = 2
        and ttl = "''Pay rent''" and d = "''monthly''" and n = 2 and st = 1] u
    by (auto simp add: exampleKeepTitleUpdate_def example_simps)
  have b: "spTaskUpdate 9 exampleTakenTitleUpdate (openSession exampleStore) =
     Inl (RuleError titleAlreadyExists, openSession exampleStore)"
    using update_title_uniqueness [OF v2, where a = 1 and u = 1 and i = 2
        and ttl = "''Buy milk''"]
    by (simp add: exampleTakenTitleUpdate_def example_simps)
  from a b show ?thesis by simp
qed


section \<open>Delete: the second call\<close>

lemma openSession_simps:
  "tables (openSession db) = db" "trancount (openSession db) = 0"
  "saved (openSession db) = None" "tranlog (openSession db) = []"
  "scopeIdentity (openSession db) = None" "recordsets (openSession db) = []"
  by (simp_all add: openSession_def)

lemma deleteTran_result:
  assumes "trancount s = 0"
  shows "TRY_CATCH
        (block [BEGIN_TRAN, UPDATE_deleted now p, SELECT_idTask (\<lambda>s. k_idTask p), COMMIT_TRAN])
        (\<lambda>e. block [ROLLBACK_TRAN, RETHROW e]) s =
     Inr (s\<lparr>tables := (tables s)\<lparr>tblTask :=
            map (\<lambda>t. if ownTask (k_idTask p) (k_idAccount p) (k_idUser p) t
                      then t\<lparr>deleted := True, dateModified := now\<rparr> else t)
              (tblTask (tables s))\<rparr>,
            recordsets := recordsets s @
              [[[(''idTask'', case k_idTask p of None \<Rightarrow> SqlNull | Some i \<Rightarrow> SqlInt i)]]],
            saved := None, trancount := 0,
            tranlog := tranlog s @ [BeginTran, CommitTran]\<rparr>)"
  using assms
  by (simp add: TRY_CATCH_def BEGIN_TRAN_def UPDATE_deleted_def SELECT_idTask_def COMMIT_TRAN_def)

lemma taskExists_after_delete:
  "\<not> taskExists
      (db\<lparr>tblTask := map (\<lambda>t. if ownTask i a u t then t\<lparr>deleted := True, dateModified := now\<rparr>
                                else t) (tblTask db)\<rparr>) i a u"
proof
  assume "taskExists
      (db\<lparr>tblTask := map (\<lambda>t. if ownTask i a u t then t\<lparr>deleted := True, dateModified := now\<rparr>
                                else t) (tblTask db)\<rparr>) i a u"
  then obtain t where t: "t \<in> set (tblTask db)"
    and o: "ownTask i a u (if ownTask i a u t then t\<lparr>deleted := True, dateModified := now\<rparr> else t)"
    unfolding taskExists_def by auto
  show False
  proof (cases "ownTask i a u t")
    case True
    with o have "ownTask i a u (t\<lparr>deleted := True, dateModified := now\<rparr>)" by simp
    then show False by (simp add: ownTask_def)
  next
    case False
    with o show False by simp
  qed
qed


lemma execute_spTaskDelete:
  "execute (spTaskDelete now p) db =
    (if \<not> accountExists db (k_idAccount p) then (Inl (RuleError accountDoesntExist), db)
     else if \<not> userExists db (k_idUser p) (k_idAccount p)
       then (Inl (RuleError userDoesntExist), db)
     else if \<not> taskExists db (k_idTask p) (k_idAccount p) (k_idUser p)
       then (Inl (RuleError taskDoesntExist), db)
     else (Inr [[[(''idTask'', case k_idTask p of None \<Rightarrow> SqlNull | Some i \<Rightarrow> SqlInt i)]]],
           db\<lparr>tblTask :=
            map (\<lambda>t. if ownTask (k_idTask p) (k_idAccount p) (k_idUser p) t
                      then t\<lparr>deleted := True, dateModified := now\<rparr> else t) (tblTask db)\<rparr>))"
proof -
  have t: "trancount (openSession db) = 0" by (simp add: openSession_def)
  show ?thesis
    unfolding execute_def spTaskDelete_unfold deleteTran_result [OF t]
    by (simp add: openSession_simps)
qed

text \<open>
  C7.  After a successful Delete, a second Delete with the same parameters, at any later
  time, fails with \<open>taskDoesntExist\<close> and leaves the store as the first call left it.
\<close>

theorem delete_twice:
  assumes "execute (spTaskDelete now p) db = (Inr rs, db')"
  shows "execute (spTaskDelete now' p) db' = (Inl (RuleError taskDoesntExist), db')"
proof -
  have a: "accountExists db (k_idAccount p)"
    using assms unfolding execute_spTaskDelete by (simp split: if_splits)
  have u: "userExists db (k_idUser p) (k_idAccount p)"
    using assms unfolding execute_spTaskDelete by (simp split: if_splits)
  have d: "db' = db\<lparr>tblTask :=
            map (\<lambda>t. if ownTask (k_idTask p) (k_idAccount p) (k_idUser p) t
                      then t\<lparr>deleted := True, dateModified := now\<rparr> else t) (tblTask db)\<rparr>"
    using assms unfolding execute_spTaskDelete by (simp split: if_splits)
  have a': "accountExists db' (k_idAccount p)" using a unfolding d accountExists_def by simp
  have u': "userExists db' (k_idUser p) (k_idAccount p)" using u unfolding d userExists_def by simp
  have e': "\<not> taskExists db' (k_idTask p) (k_idAccount p) (k_idUser p)"
    unfolding d by (rule taskExists_after_delete)
  show ?thesis unfolding execute_spTaskDelete using a' u' e' by simp
qed

theorem delete_twice_witness:
  "execute (spTaskDelete 9 \<lparr>k_idAccount = Some 1, k_idUser = Some 1, k_idTask = Some 2\<rparr>) exampleStore =
     (Inr [[[(''idTask'', SqlInt 2)]]],
      exampleStore\<lparr>tblTask := (tblTask exampleStore)
        [1 := (tblTask exampleStore ! 1)\<lparr>deleted := True, dateModified := 9\<rparr>]\<rparr>) \<and>
   execute (spTaskDelete 10 \<lparr>k_idAccount = Some 1, k_idUser = Some 1, k_idTask = Some 2\<rparr>)
     (exampleStore\<lparr>tblTask := (tblTask exampleStore)
        [1 := (tblTask exampleStore ! 1)\<lparr>deleted := True, dateModified := 9\<rparr>]\<rparr>) =
     (Inl (RuleError taskDoesntExist),
      exampleStore\<lparr>tblTask := (tblTask exampleStore)
        [1 := (tblTask exampleStore ! 1)\<lparr>deleted := True, dateModified := 9\<rparr>]\<rparr>)"
proof -
  have a: "execute (spTaskDelete 9 \<lparr>k_idAccount = Some 1, k_idUser = Some 1, k_idTask = Some 2\<rparr>)
      exampleStore =
     (Inr [[[(''idTask'', SqlInt 2)]]],
      exampleStore\<lparr>tblTask := (tblTask exampleStore)
        [1 := (tblTask exampleStore ! 1)\<lparr>deleted := True, dateModified := 9\<rparr>]\<rparr>)"
    by (simp add: execute_spTaskDelete example_simps)
  from a delete_twice [OF a, of 10] show ?thesis by (rule conjI)
qed


section \<open>Tasks of another user\<close>

lemma execute_spTaskGet:
  "execute (spTaskGet p) db =
    (if \<not> accountExists db (k_idAccount p) then (Inl (RuleError accountDoesntExist), db)
     else if \<not> userExists db (k_idUser p) (k_idAccount p)
       then (Inl (RuleError userDoesntExist), db)
     else if \<not> taskExists db (k_idTask p) (k_idAccount p) (k_idUser p)
       then (Inl (RuleError taskDoesntExist), db)
     else (Inr [map taskColumns
             (filter (ownTask (k_idTask p) (k_idAccount p) (k_idUser p)) (tblTask db))], db))"
  unfolding execute_def spTaskGet_unfold
  by (simp add: openSession_simps SELECT_tasks_def)

lemma updateChecks6_store:
  "take 6 (spec_updateChecks now db p) = take 6 (spec_updateChecks now db' p)"
  by (simp add: spec_updateChecks_def)

lemma execute_spTaskUpdate_foreign:
  assumes acc: "accountExists db (u_idAccount p)"
    and usr: "userExists db (u_idUser p) (u_idAccount p)"
    and foreign: "\<not> taskExists db (u_idTask p) (u_idAccount p) (u_idUser p)"
  shows "execute (spTaskUpdate now p) db =
     (Inl (RuleError (case spec_firstViolation (take 6 (spec_updateChecks now db0 p)) of
                        Some e \<Rightarrow> e | None \<Rightarrow> taskDoesntExist)), db)"
  using assms
  unfolding execute_def spTaskUpdate_unfold spec_updateChecks_def check_title_present check_len
    check_priority check_status check_dueDate
  by (simp add: openSession_simps)

text \<open>
  C8.  A user of the account who does not own the target task (no task with that key, or
  a task of another user, or a deleted one) gets \<open>taskDoesntExist\<close> from Get and from
  Delete, and from every Update whose field validations pass; the store is unchanged.  In
  two stores that both hold the account and the user and differ in whether the key exists
  under another user, Get, Update and Delete answer the same, for every Update request
  (an Update with an invalid field raises the error of that field in both).
\<close>

theorem foreign_task_is_absent:
  assumes acc: "accountExists db (Some a)" and usr: "userExists db (Some u) (Some a)"
    and foreign: "\<not> (\<exists>t \<in> set (tblTask db).
        idTask t = i \<and> idAccount t = a \<and> idUser t = u \<and> \<not> deleted t)"
    and acc2: "accountExists db2 (Some a)" and usr2: "userExists db2 (Some u) (Some a)"
    and foreign2: "\<not> (\<exists>t \<in> set (tblTask db2).
        idTask t = i \<and> idAccount t = a \<and> idUser t = u \<and> \<not> deleted t)"
    and k: "k = \<lparr>k_idAccount = Some a, k_idUser = Some u, k_idTask = Some i\<rparr>"
    and p: "u_idAccount p = Some a" "u_idUser p = Some u" "u_idTask p = Some i"
  shows "execute (spTaskGet k) db = (Inl (RuleError taskDoesntExist), db) \<and>
     execute (spTaskDelete now k) db = (Inl (RuleError taskDoesntExist), db) \<and>
     (spec_firstViolation (take 6 (spec_updateChecks now db p)) = None \<longrightarrow>
        execute (spTaskUpdate now p) db = (Inl (RuleError taskDoesntExist), db)) \<and>
     fst (execute (spTaskGet k) db2) = fst (execute (spTaskGet k) db) \<and>
     fst (execute (spTaskDelete now k) db2) = fst (execute (spTaskDelete now k) db) \<and>
     fst (execute (spTaskUpdate now p) db2) = fst (execute (spTaskUpdate now p) db)"
proof -
  have f: "\<not> taskExists db (Some i) (Some a) (Some u)"
    using foreign by (auto simp: taskExists_def ownTask_def)
  have f2: "\<not> taskExists db2 (Some i) (Some a) (Some u)"
    using foreign2 by (auto simp: taskExists_def ownTask_def)
  have g: "execute (spTaskGet k) db = (Inl (RuleError taskDoesntExist), db)"
    using acc usr f by (simp add: execute_spTaskGet k)
  have g2: "execute (spTaskGet k) db2 = (Inl (RuleError taskDoesntExist), db2)"
    using acc2 usr2 f2 by (simp add: execute_spTaskGet k)
  have d: "execute (spTaskDelete now k) db = (Inl (RuleError taskDoesntExist), db)"
    using acc usr f by (simp add: execute_spTaskDelete k)
  have d2: "execute (spTaskDelete now k) db2 = (Inl (RuleError taskDoesntExist), db2)"
    using acc2 usr2 f2 by (simp add: execute_spTaskDelete k)
  have u: "execute (spTaskUpdate now p) db =
     (Inl (RuleError (case spec_firstViolation (take 6 (spec_updateChecks now db p)) of
                        Some e \<Rightarrow> e | None \<Rightarrow> taskDoesntExist)), db)"
    using acc usr f p by (intro execute_spTaskUpdate_foreign) simp_all
  have u2: "execute (spTaskUpdate now p) db2 =
     (Inl (RuleError (case spec_firstViolation (take 6 (spec_updateChecks now db p)) of
                        Some e \<Rightarrow> e | None \<Rightarrow> taskDoesntExist)), db2)"
    using acc2 usr2 f2 p by (intro execute_spTaskUpdate_foreign) simp_all
  show ?thesis by (simp add: g g2 d d2 u u2)
qed

theorem foreign_task_is_absent_witness:
  "execute (spTaskGet exampleForeignKey) exampleStore =
     (Inl (RuleError taskDoesntExist), exampleStore) \<and>
   execute (spTaskDelete 9 exampleForeignKey) exampleStore =
     (Inl (RuleError taskDoesntExist), exampleStore) \<and>
   execute (spTaskUpdate 9 exampleForeignUpdate) exampleStore =
     (Inl (RuleError taskDoesntExist), exampleStore) \<and>
   fst (execute (spTaskGet exampleForeignKey) exampleStoreWithoutTask1) =
     fst (execute (spTaskGet exampleForeignKey) exampleStore) \<and>
   fst (execute (spTaskDelete 9 exampleForeignKey) exampleStoreWithoutTask1) =
     fst (execute (spTaskDelete 9 exampleForeignKey) exampleStore) \<and>
   fst (execute (spTaskUpdate 9 exampleForeignUpdate) exampleStoreWithoutTask1) =
     fst (execute (spTaskUpdate 9 exampleForeignUpdate) exampleStore)"
proof -
  have v: "spec_firstViolation (take 6 (spec_updateChecks 9 exampleStore exampleForeignUpdate)) = None"
    by (simp add: spec_updateChecks_def exampleForeignUpdate_def example_simps)
  have h: "accountExists exampleStore (Some 1)" "userExists exampleStore (Some 2) (Some 1)"
    "\<not> (\<exists>t \<in> set (tblTask exampleStore).
        idTask t = 1 \<and> idAccount t = 1 \<and> idUser t = 2 \<and> \<not> deleted t)"
    "accountExists exampleStoreWithoutTask1 (Some 1)"
    "userExists exampleStoreWithoutTask1 (Some 2) (Some 1)"
    "\<not> (\<exists>t \<in> set (tblTask exampleStoreWithoutTask1).
        idTask t = 1 \<and> idAccount t = 1 \<and> idUser t = 2 \<and> \<not> deleted t)"
    by (simp_all add: exampleStoreWithoutTask1_def exampleStore_def accountExists_def
        userExists_def)
  have k: "exampleForeignKey = \<lparr>k_idAccount = Some 1, k_idUser = Some 2, k_idTask = Some 1\<rparr>"
    by (simp add: exampleForeignKey_def)
  have p: "u_idAccount exampleForeignUpdate = Some 1" "u_idUser exampleForeignUpdate = Some 2"
    "u_idTask exampleForeignUpdate = Some 1"
    by (simp_all add: exampleForeignUpdate_def)
  from foreign_task_is_absent [OF h k p, of 9] v show ?thesis by blast
qed


section \<open>The columns of the results\<close>

lemma columns_taskColumns:
  "map fst (taskColumns t) =
     [''idTask'', ''title'', ''description'', ''priority'', ''dueDate'', ''status'',
      ''dateCreated'', ''dateModified'']"
  by (simp add: taskColumns_def)

lemma execute_spTaskList:
  "execute (spTaskList p) db =
    (if \<not> accountExists db (l_idAccount p) then (Inl (RuleError accountDoesntExist), db)
     else if \<not> userExists db (l_idUser p) (l_idAccount p)
       then (Inl (RuleError userDoesntExist), db)
     else if (case l_status p of None \<Rightarrow> False | Some n \<Rightarrow> \<not> (0 \<le> n \<and> n \<le> 1))
       then (Inl (RuleError invalidStatus), db)
     else if (case l_priority p of None \<Rightarrow> False | Some n \<Rightarrow> \<not> (0 \<le> n \<and> n \<le> 2))
       then (Inl (RuleError invalidPriority), db)
     else (Inr [map taskColumns (ORDER_BY listOrder (filter (listWhere p) (tblTask db)))], db))"
  unfolding execute_def spTaskList_unfold
  by (simp add: openSession_simps SELECT_tasks_def)

lemma taskGet_row:
  assumes "taskGet db g = (Inr x, db')"
  shows "\<exists>t \<in> set (tblTask db). x = Some (taskColumns t)"
proof -
  let ?own = "ownTask (Some (gr_idTask g)) (Some (gr_idAccount g)) (Some (gr_idUser g))"
  have e: "taskExists db (Some (gr_idTask g)) (Some (gr_idAccount g)) (Some (gr_idUser g))"
    and x: "x = firstRow (map taskColumns (filter ?own (tblTask db)))"
    using assms
    by (auto simp add: taskGet_def execute_spTaskGet recordset_def split: if_splits)
  from e obtain t where "t \<in> set (filter ?own (tblTask db))"
    by (auto simp: taskExists_def)
  then obtain t0 ts where f: "filter ?own (tblTask db) = t0 # ts"
    by (cases "filter ?own (tblTask db)") auto
  then have "t0 \<in> set (filter ?own (tblTask db))" by simp
  then have "t0 \<in> set (tblTask db)" by simp
  moreover have "x = Some (taskColumns t0)" using x f by (simp add: firstRow_def)
  ultimately show ?thesis by blast
qed

lemma taskList_rows:
  assumes "taskList db l = (Inr rows, db')"
  shows "\<forall>r \<in> set rows. \<exists>t \<in> set (tblTask db). r = taskColumns t"
proof -
  let ?p = "\<lparr>l_idAccount = Some (lr_idAccount l), l_idUser = Some (lr_idUser l),
             l_status = lr_status l, l_priority = lr_priority l\<rparr>"
  have "rows = map taskColumns (ORDER_BY listOrder (filter (listWhere ?p) (tblTask db)))"
    using assms
    by (auto simp add: taskList_def execute_spTaskList recordset_def split: if_splits)
  then show ?thesis by (auto simp: set_ORDER_BY)
qed

text \<open>
  C10.  The record that Get returns and every record of the sequence that List returns
  has exactly the eight properties \<^verbatim>\<open>idTask\<close>, \<^verbatim>\<open>title\<close>, \<^verbatim>\<open>description\<close>, \<^verbatim>\<open>priority\<close>,
  \<^verbatim>\<open>dueDate\<close>, \<^verbatim>\<open>status\<close>, \<^verbatim>\<open>dateCreated\<close> and \<^verbatim>\<open>dateModified\<close>, in this order.
  \<^verbatim>\<open>idAccount\<close>, \<^verbatim>\<open>idUser\<close> and \<^verbatim>\<open>deleted\<close> are not among them, although \<^verbatim>\<open>TaskEntity\<close>
  declares \<^verbatim>\<open>idAccount\<close> and \<^verbatim>\<open>idUser\<close>.
\<close>

theorem result_columns:
  "(taskGet db g = (Inr x, db') \<longrightarrow>
      (\<exists>r. x = Some r \<and>
        map fst r = [''idTask'', ''title'', ''description'', ''priority'', ''dueDate'', ''status'',
                     ''dateCreated'', ''dateModified''])) \<and>
   (taskList db l = (Inr rows, db') \<longrightarrow>
      (\<forall>r \<in> set rows.
        map fst r = [''idTask'', ''title'', ''description'', ''priority'', ''dueDate'', ''status'',
                     ''dateCreated'', ''dateModified''])) \<and>
   ''idAccount'' \<in> set TaskEntity \<and> ''idUser'' \<in> set TaskEntity \<and>
   {''idAccount'', ''idUser'', ''deleted''} \<inter>
     set [''idTask'', ''title'', ''description'', ''priority'', ''dueDate'', ''status'',
          ''dateCreated'', ''dateModified''] = {}"
proof (intro conjI impI)
  assume "taskGet db g = (Inr x, db')"
  from taskGet_row [OF this] show "\<exists>r. x = Some r \<and>
        map fst r = [''idTask'', ''title'', ''description'', ''priority'', ''dueDate'', ''status'',
                     ''dateCreated'', ''dateModified'']"
    by (auto simp: columns_taskColumns)
next
  assume "taskList db l = (Inr rows, db')"
  from taskList_rows [OF this] show "\<forall>r \<in> set rows.
        map fst r = [''idTask'', ''title'', ''description'', ''priority'', ''dueDate'', ''status'',
                     ''dateCreated'', ''dateModified'']"
    by (auto simp: columns_taskColumns)
qed (simp_all add: TaskEntity_def)

theorem result_columns_witness:
  "taskGet exampleStore \<lparr>gr_idAccount = 1, gr_idUser = 1, gr_idTask = 2\<rparr> =
     (Inr (Some [(''idTask'', SqlInt 2), (''title'', SqlText ''Pay rent''),
                 (''description'', SqlText []), (''priority'', SqlInt 1), (''dueDate'', SqlNull),
                 (''status'', SqlInt 0), (''dateCreated'', SqlDateTime 200),
                 (''dateModified'', SqlDateTime 200)]), exampleStore) \<and>
   map_of [(''idTask'', SqlInt 2), (''title'', SqlText ''Pay rent''),
           (''description'', SqlText []), (''priority'', SqlInt 1), (''dueDate'', SqlNull),
           (''status'', SqlInt 0), (''dateCreated'', SqlDateTime 200),
           (''dateModified'', SqlDateTime 200)] ''idAccount'' = None"
proof -
  have g: "taskGet exampleStore \<lparr>gr_idAccount = 1, gr_idUser = 1, gr_idTask = 2\<rparr> =
     (Inr (Some [(''idTask'', SqlInt 2), (''title'', SqlText ''Pay rent''),
                 (''description'', SqlText []), (''priority'', SqlInt 1), (''dueDate'', SqlNull),
                 (''status'', SqlInt 0), (''dateCreated'', SqlDateTime 200),
                 (''dateModified'', SqlDateTime 200)]), exampleStore)"
    by (simp add: taskGet_def execute_spTaskGet recordset_def firstRow_def taskColumns_def
        example_simps)
  from result_columns [where db = exampleStore
      and g = "\<lparr>gr_idAccount = 1, gr_idUser = 1, gr_idTask = 2\<rparr>" and db' = exampleStore] g
  have "map fst [(''idTask'', SqlInt 2), (''title'', SqlText ''Pay rent''),
           (''description'', SqlText []), (''priority'', SqlInt 1), (''dueDate'', SqlNull),
           (''status'', SqlInt 0), (''dateCreated'', SqlDateTime 200),
           (''dateModified'', SqlDateTime 200)] =
     [''idTask'', ''title'', ''description'', ''priority'', ''dueDate'', ''status'',
      ''dateCreated'', ''dateModified'']"
    by auto
  then have "''idAccount'' \<notin> fst ` set [(''idTask'', SqlInt 2), (''title'', SqlText ''Pay rent''),
           (''description'', SqlText []), (''priority'', SqlInt 1), (''dueDate'', SqlNull),
           (''status'', SqlInt 0), (''dateCreated'', SqlDateTime 200),
           (''dateModified'', SqlDateTime 200)]"
    by simp
  then show ?thesis using g by (simp only: map_of_eq_None_iff simp_thms)
qed


section \<open>Create: titles and descriptions longer than the declared parameters\<close>

lemma LEN_NVARCHAR: "LEN (NVARCHAR n s) \<le> n"
proof -
  have "LEN (NVARCHAR n s) \<le> length (NVARCHAR n s)" by (rule LEN_le_length)
  also have "\<dots> \<le> n" by (simp add: NVARCHAR_def)
  finally show ?thesis .
qed

lemma spTaskCreate_titleExceedsMaxLength:
  assumes "spTaskCreate now p s = Inl (RuleError titleExceedsMaxLength, s')"
  shows "case c_title p of None \<Rightarrow> False | Some t \<Rightarrow> LEN t > 100"
  using assms by (simp add: spTaskCreate_unfold createTran_no_RuleError split: if_splits)

lemma taskCreate_never_titleExceedsMaxLength:
  "fst (taskCreate now db params) \<noteq> Inl (RuleError titleExceedsMaxLength)"
proof
  let ?p = "\<lparr>c_idAccount = Some (cr_idAccount params),
               c_idUser = Some (cr_idUser params),
               c_title = Some (NVARCHAR 100 (cr_title params)),
               c_description = Some (NVARCHAR 500
                  (case cr_description params of None \<Rightarrow> [] | Some d \<Rightarrow> d)),
               c_priority = Some (case cr_priority params of None \<Rightarrow> 1 | Some n \<Rightarrow> n),
               c_dueDate = map_option CAST_DATE (cr_dueDate params)\<rparr>"
  assume "fst (taskCreate now db params) = Inl (RuleError titleExceedsMaxLength)"
  then obtain s' where "spTaskCreate now ?p (openSession db) = Inl (RuleError titleExceedsMaxLength, s')"
    by (auto simp: taskCreate_def execute_def split: sum.splits prod.splits)
  from spTaskCreate_titleExceedsMaxLength [OF this]
  have "LEN (NVARCHAR 100 (cr_title params)) > 100" by simp
  then show False using LEN_NVARCHAR [of 100 "cr_title params"] by simp
qed

lemma spTaskCreate_descriptionExceedsMaxLength:
  assumes "spTaskCreate now p s = Inl (RuleError descriptionExceedsMaxLength, s')"
  shows "case c_description p of None \<Rightarrow> False | Some d \<Rightarrow> LEN d > 500"
  using assms by (simp add: spTaskCreate_unfold createTran_no_RuleError split: if_splits)

lemma taskCreate_never_descriptionExceedsMaxLength:
  "fst (taskCreate now db params) \<noteq> Inl (RuleError descriptionExceedsMaxLength)"
proof
  let ?d = "case cr_description params of None \<Rightarrow> [] | Some d \<Rightarrow> d"
  let ?p = "\<lparr>c_idAccount = Some (cr_idAccount params),
               c_idUser = Some (cr_idUser params),
               c_title = Some (NVARCHAR 100 (cr_title params)),
               c_description = Some (NVARCHAR 500 ?d),
               c_priority = Some (case cr_priority params of None \<Rightarrow> 1 | Some n \<Rightarrow> n),
               c_dueDate = map_option CAST_DATE (cr_dueDate params)\<rparr>"
  assume "fst (taskCreate now db params) = Inl (RuleError descriptionExceedsMaxLength)"
  then obtain s' where
    "spTaskCreate now ?p (openSession db) = Inl (RuleError descriptionExceedsMaxLength, s')"
    by (auto simp: taskCreate_def execute_def split: sum.splits prod.splits)
  from spTaskCreate_descriptionExceedsMaxLength [OF this]
  have "LEN (NVARCHAR 500 ?d) > 500" by simp
  then show False using LEN_NVARCHAR [of 500 ?d] by simp
qed

lemma zString_100:
  "zString (Some 100) (JString t) = (if 1 \<le> length t \<and> length t \<le> 100 then Inr t else Inl 1)"
  by (cases t) (auto simp add: zString_def)

text \<open>
  A title of exactly 100 characters passes both length checks: the body schema accepts it
  and the procedure does not raise \<open>titleExceedsMaxLength\<close>.
\<close>

lemma title_100_accepted:
  assumes "length t = 100"
  shows "zString (Some 100) (JString t) = Inr t"
    and "c_title p = Some t \<Longrightarrow>
           spTaskCreate now p s \<noteq> Inl (RuleError titleExceedsMaxLength, s')"
proof -
  show "zString (Some 100) (JString t) = Inr t" using assms by (simp add: zString_100)
next
  assume c: "c_title p = Some t"
  show "spTaskCreate now p s \<noteq> Inl (RuleError titleExceedsMaxLength, s')"
  proof
    assume "spTaskCreate now p s = Inl (RuleError titleExceedsMaxLength, s')"
    from spTaskCreate_titleExceedsMaxLength [OF this] c have "LEN t > 100" by simp
    then show False using LEN_le_length [of t] assms by simp
  qed
qed

text \<open>
  POST /task refuses a body whose title has 101 characters before the rule engine runs:
  it answers 400 with the code \<^verbatim>\<open>VALIDATION_ERROR\<close> and an issue for \<^verbatim>\<open>title\<close>, and the
  store is unchanged.
\<close>

lemma postHandler_title_101:
  assumes "length t = 101" and "b_title b = JString t"
  shows "\<exists>issues. ''title'' \<in> set issues \<and>
           postHandler js now db b =
             (Status 400 (errorResponse ''Validation failed'' (Some ''VALIDATION_ERROR'') issues),
              db)"
proof -
  have z: "zString (Some 100) (b_title b) = Inl 1" using assms by (simp add: zString_100)
  obtain issues where i: "createBodySchema js b = Inl issues" and m: "''title'' \<in> set issues"
    using z by (simp add: createBodySchema_def Let_def issue_def)
  have "postHandler js now db b =
           (Status 400 (errorResponse ''Validation failed'' (Some ''VALIDATION_ERROR'') issues),
            db)"
    using i by (simp add: postHandler_def catchBlock_def HTTP_STATUS_BAD_REQUEST_def)
  with m show ?thesis by blast
qed

lemma postHandler_title_101_example:
  "postHandler exampleRuntime 0 exampleEmptyStore exampleLongTitleBody =
     (Status 400 (errorResponse ''Validation failed'' (Some ''VALIDATION_ERROR'') [''title'']),
      exampleEmptyStore)"
  by (simp add: postHandler_def createBodySchema_def exampleLongTitleBody_def zFK_def
      zNumber_def failing_def zString_def optional_def issue_def Let_def catchBlock_def
      HTTP_STATUS_BAD_REQUEST_def)

lemma RTRIM_Nil: "RTRIM [] = []"
  by (simp add: RTRIM_def)

lemma RTRIM_replicate_a: "RTRIM (replicate n (CHR ''a'')) = replicate n (CHR ''a'')"
  by (simp add: RTRIM_def)

lemma LTRIM_replicate_a: "LTRIM (replicate n (CHR ''a'')) = replicate n (CHR ''a'')"
  by (simp add: LTRIM_def)

lemma LEN_replicate_a: "LEN (replicate n (CHR ''a'')) = n"
  by (simp add: LEN_def RTRIM_replicate_a)

lemma replicate_a_not_blank:
  "list_all (\<lambda>c. c = CHR '' '') (replicate n (CHR ''a'')) = (n = 0)"
  by (cases n) (simp_all add: list_all_iff)

text \<open>
  C9.  The claim holds for 100 characters and fails on the code for 101.  A call of
  \<^verbatim>\<open>taskCreate\<close> with a title of 101 characters, for an account and a user that exist and
  no task yet, violates the title-length check of the specification, which asks for
  \<open>titleExceedsMaxLength\<close>.  The code raises no error: the parameter \<^verbatim>\<open>@title NVARCHAR(100)\<close>
  receives the first 100 characters, the check \<^verbatim>\<open>LEN(@title) > 100\<close> of the procedure
  passes, and the task is stored under the shortened title and its key returned.
\<close>

theorem taskCreate_title_101:
  "length (cr_title exampleLongTitleRequest) = 101 \<and>
   spec_firstViolation
     (spec_createChecks 0 exampleEmptyStore (spec_createRequest exampleLongTitleRequest)) =
     Some titleExceedsMaxLength \<and>
   taskCreate 0 exampleEmptyStore exampleLongTitleRequest =
     (Inr (Some [(''idTask'', SqlInt 1)]),
      exampleEmptyStore
        \<lparr>tblTask :=
           [\<lparr>idTask = 1, idAccount = 1, idUser = 1, title = replicate 100 (CHR ''a''),
             description = [], priority = 1, dueDate = None, status = 0, dateCreated = 0,
             dateModified = 0, deleted = False\<rparr>],
         identTask := 1\<rparr>)"
proof -
  have a: "taskCreate 0 exampleEmptyStore exampleLongTitleRequest =
     (Inr (Some [(''idTask'', SqlInt 1)]),
      exampleEmptyStore
        \<lparr>tblTask :=
           [\<lparr>idTask = 1, idAccount = 1, idUser = 1, title = replicate 100 (CHR ''a''),
             description = [], priority = 1, dueDate = None, status = 0, dateCreated = 0,
             dateModified = 0, deleted = False\<rparr>],
         identTask := 1\<rparr>)"
    by (simp add: taskCreate_def execute_def exampleLongTitleRequest_def NVARCHAR_def
        spTaskCreate_unfold strEq_def LEN_def RTRIM_replicate_a LTRIM_replicate_a RTRIM_Nil
        exampleEmptyStore_def openSession_def accountExists_def userExists_def titleTaken_def
        TRY_CATCH_def BEGIN_TRAN_def INSERT_task_def SELECT_idTask_def COMMIT_TRAN_def Let_def
        chkTask_Priority_def chkTask_Status_def pkTask_conflict_def
        uqTask_Account_User_Title_conflict_def fkTask_Account_def fkTask_User_def
        recordset_def firstRow_def)
  have b: "spec_firstViolation
     (spec_createChecks 0 exampleEmptyStore (spec_createRequest exampleLongTitleRequest)) =
     Some titleExceedsMaxLength"
    by (simp add: spec_createChecks_def spec_createRequest_def exampleLongTitleRequest_def
        LEN_replicate_a replicate_a_not_blank)
  show ?thesis using a b by (simp add: exampleLongTitleRequest_def)
qed

text \<open>
  C1.  The procedure evaluates the eight validations in the order of the claim, but on the
  values of its parameters, and the parameters \<^verbatim>\<open>@title NVARCHAR(100)\<close> and
  \<^verbatim>\<open>@description NVARCHAR(500)\<close> hold at most 100 and 500 characters: the checks of the two
  lengths never fail, so the claim fails on the code for a request whose first violated
  check is one of them.  A call of \<^verbatim>\<open>taskCreate\<close> with a title of 101 characters under an
  account that does not exist violates the checks 2 and 6 of the specification, which asks
  for \<open>titleExceedsMaxLength\<close>, the error of the first.  The code raises
  \<open>accountDoesntExist\<close>.
\<close>

theorem taskCreate_long_title_unknown_account:
  "length (cr_title exampleLongTitleNoAccountRequest) = 101 \<and>
   spec_firstViolation
     (spec_createChecks 0 exampleStore (spec_createRequest exampleLongTitleNoAccountRequest)) =
     Some titleExceedsMaxLength \<and>
   taskCreate 0 exampleStore exampleLongTitleNoAccountRequest =
     (Inl (RuleError accountDoesntExist), exampleStore)"
proof -
  have a: "taskCreate 0 exampleStore exampleLongTitleNoAccountRequest =
     (Inl (RuleError accountDoesntExist), exampleStore)"
    by (simp add: taskCreate_def execute_def exampleLongTitleNoAccountRequest_def NVARCHAR_def
        spTaskCreate_unfold strEq_def LEN_def RTRIM_replicate_a LTRIM_replicate_a RTRIM_Nil
        exampleStore_def openSession_def accountExists_def)
  have b: "spec_firstViolation
     (spec_createChecks 0 exampleStore (spec_createRequest exampleLongTitleNoAccountRequest)) =
     Some titleExceedsMaxLength"
    by (simp add: spec_createChecks_def spec_createRequest_def
        exampleLongTitleNoAccountRequest_def LEN_replicate_a replicate_a_not_blank)
  show ?thesis using a b by (simp add: exampleLongTitleNoAccountRequest_def)
qed


section \<open>The invariant of the store\<close>

text \<open>
  The store of the examples satisfies the invariant, and Create, Update and Delete keep it
  (Get and List do not write), so the unique index and the bound of the identity counter
  that the theorems on Create and Update assume hold in every store the procedures reach.
\<close>

lemma uq_conflict_sym:
  assumes "\<not> deleted t" "\<not> deleted r" "idTask t \<noteq> idTask r" "idAccount t = idAccount r"
    "idUser t = idUser r" "strEq (title t) (title r)" "t \<in> set rows"
  shows "uqTask_Account_User_Title_conflict rows r"
  unfolding uqTask_Account_User_Title_conflict_def
  using assms by (intro conjI bexI [of _ t]) auto

lemma uq_append:
  assumes u: "uqTask_Account_User_Title rows"
    and r: "\<not> uqTask_Account_User_Title_conflict rows r"
  shows "uqTask_Account_User_Title (rows @ [r])"
  unfolding uqTask_Account_User_Title_def
proof
  fix t assume t: "t \<in> set (rows @ [r])"
  show "\<not> uqTask_Account_User_Title_conflict (rows @ [r]) t"
  proof
    assume c: "uqTask_Account_User_Title_conflict (rows @ [r]) t"
    then obtain t' where t': "t' \<in> set (rows @ [r])" "idTask t' \<noteq> idTask t" "\<not> deleted t'"
      "idAccount t' = idAccount t" "idUser t' = idUser t" "strEq (title t') (title t)"
      and d: "\<not> deleted t"
      by (auto simp: uqTask_Account_User_Title_conflict_def)
    show False
    proof (cases "t' \<in> set rows")
      case True
      note t'rows = this
      show False
      proof (cases "t \<in> set rows")
        case True
        have "uqTask_Account_User_Title_conflict rows t"
          using uq_conflict_sym [OF t'(3) d t'(2) t'(4) t'(5) t'(6) t'rows] .
        then show False using u True by (simp add: uqTask_Account_User_Title_def)
      next
        case False
        then have "t = r" using t by simp
        then have "uqTask_Account_User_Title_conflict rows r"
          using uq_conflict_sym [OF t'(3) d t'(2) t'(4) t'(5) t'(6) t'rows] by simp
        then show False using r by simp
      qed
    next
      case False
      then have e: "t' = r" using t'(1) by simp
      then have "t \<in> set rows" using t t'(2) by auto
      moreover have "strEq (title t) (title r)" using t'(6) e by (simp add: strEq_def)
      ultimately have "uqTask_Account_User_Title_conflict rows r"
        using uq_conflict_sym [of t r rows] d t' e by auto
      then show False using r by simp
    qed
  qed
qed


lemma INSERT_task_cases:
  "INSERT_task now p s = Inl (CannotInsertNull, s) \<or>
   (\<exists>e. INSERT_task now p s =
      Inl (e, s\<lparr>tables := (tables s)\<lparr>identTask := identTask (tables s) + 1\<rparr>\<rparr>)) \<or>
   (\<exists>r. INSERT_task now p s =
      Inr (s\<lparr>tables := (tables s)\<lparr>identTask := identTask (tables s) + 1,
                                     tblTask := tblTask (tables s) @ [r]\<rparr>,
             scopeIdentity := Some (idTask r)\<rparr>) \<and>
      idTask r = identTask (tables s) + 1 \<and>
      \<not> uqTask_Account_User_Title_conflict (tblTask (tables s)) r)"
proof -
  let ?r = "\<lparr>idTask = identTask (tables s) + 1,
             idAccount = the (c_idAccount p),
             idUser = the (c_idUser p),
             title = the (c_title p),
             description = the (c_description p),
             priority = the (c_priority p),
             dueDate = c_dueDate p,
             status = 0,
             dateCreated = now,
             dateModified = now,
             deleted = False\<rparr>"
  have "INSERT_task now p s = Inl (CannotInsertNull, s) \<or>
   (\<exists>e. INSERT_task now p s =
      Inl (e, s\<lparr>tables := (tables s)\<lparr>identTask := identTask (tables s) + 1\<rparr>\<rparr>)) \<or>
   (INSERT_task now p s =
      Inr (s\<lparr>tables := (tables s)\<lparr>identTask := identTask (tables s) + 1,
                                     tblTask := tblTask (tables s) @ [?r]\<rparr>,
             scopeIdentity := Some (idTask ?r)\<rparr>) \<and>
      idTask ?r = identTask (tables s) + 1 \<and>
      \<not> uqTask_Account_User_Title_conflict (tblTask (tables s)) ?r)"
    by (simp add: INSERT_task_def Let_def)
  then show ?thesis by blast
qed

lemma createTran_store:
  assumes t: "trancount s = 0"
    and r_def: "r = TRY_CATCH
        (block [BEGIN_TRAN, INSERT_task now p, SELECT_idTask scopeIdentity, COMMIT_TRAN])
        (\<lambda>e. block [ROLLBACK_TRAN, RETHROW e]) s"
  shows "(\<exists>e s'. r = Inl (e, s') \<and>
            (tables s' = tables s \<or>
             tables s' = (tables s)\<lparr>identTask := identTask (tables s) + 1\<rparr>)) \<or>
         (\<exists>s' row. r = Inr s' \<and>
            tables s' = (tables s)\<lparr>identTask := identTask (tables s) + 1,
                                   tblTask := tblTask (tables s) @ [row]\<rparr> \<and>
            idTask row = identTask (tables s) + 1 \<and>
            \<not> uqTask_Account_User_Title_conflict (tblTask (tables s)) row)"
proof -
  let ?s1 = "s\<lparr>saved := Some (tables s), trancount := 1, tranlog := tranlog s @ [BeginTran]\<rparr>"
  have b: "BEGIN_TRAN s = Inr ?s1" using t by (simp add: BEGIN_TRAN_def)
  from INSERT_task_cases [of now p ?s1]
  consider (null) "INSERT_task now p ?s1 = Inl (CannotInsertNull, ?s1)"
    | (fail) e where "INSERT_task now p ?s1 =
        Inl (e, ?s1\<lparr>tables := (tables ?s1)\<lparr>identTask := identTask (tables ?s1) + 1\<rparr>\<rparr>)"
    | (ok) row where "INSERT_task now p ?s1 =
        Inr (?s1\<lparr>tables := (tables ?s1)\<lparr>identTask := identTask (tables ?s1) + 1,
                                     tblTask := tblTask (tables ?s1) @ [row]\<rparr>,
             scopeIdentity := Some (idTask row)\<rparr>)"
        "idTask row = identTask (tables ?s1) + 1"
        "\<not> uqTask_Account_User_Title_conflict (tblTask (tables ?s1)) row"
    by blast
  then show ?thesis
  proof cases
    case null
    then show ?thesis using b
      by (simp add: r_def TRY_CATCH_def ROLLBACK_TRAN_def RETHROW_def)
  next
    case (fail e)
    then show ?thesis using b
      by (simp add: r_def TRY_CATCH_def ROLLBACK_TRAN_def RETHROW_def)
  next
    case (ok row)
    then show ?thesis using b
      by (auto simp add: r_def TRY_CATCH_def SELECT_idTask_def COMMIT_TRAN_def)
  qed
qed

lemma execute_spTaskCreate_store:
  "snd (execute (spTaskCreate now p) db) = db \<or>
   snd (execute (spTaskCreate now p) db) = db\<lparr>identTask := identTask db + 1\<rparr> \<or>
   (\<exists>row. snd (execute (spTaskCreate now p) db) =
        db\<lparr>identTask := identTask db + 1, tblTask := tblTask db @ [row]\<rparr> \<and>
      idTask row = identTask db + 1 \<and>
      \<not> uqTask_Account_User_Title_conflict (tblTask db) row)"
proof -
  have t: "trancount (openSession db) = 0" by (simp add: openSession_simps)
  show ?thesis
    using createTran_store [OF t refl, of now p]
    by (auto simp: execute_def spTaskCreate_unfold openSession_simps)
qed

lemma storeInvariant_identTask:
  "storeInvariant db \<Longrightarrow> storeInvariant (db\<lparr>identTask := identTask db + 1\<rparr>)"
  by (fastforce simp: storeInvariant_def)

lemma storeInvariant_insert:
  assumes i: "storeInvariant db" and k: "idTask row = identTask db + 1"
    and u: "\<not> uqTask_Account_User_Title_conflict (tblTask db) row"
  shows "storeInvariant (db\<lparr>identTask := identTask db + 1, tblTask := tblTask db @ [row]\<rparr>)"
proof -
  have "uqTask_Account_User_Title (tblTask db @ [row])"
    using i u by (intro uq_append) (simp_all add: storeInvariant_def)
  moreover have "idTask row \<notin> idTask ` set (tblTask db)"
    using i k by (fastforce simp: storeInvariant_def)
  moreover have "distinct (map idTask (tblTask db))" using i by (simp add: storeInvariant_def)
  moreover have "\<forall>t \<in> set (tblTask db). idTask t \<le> identTask db + 1"
    using i by (fastforce simp: storeInvariant_def)
  ultimately show ?thesis using k by (simp add: storeInvariant_def)
qed

lemma spTaskCreate_storeInvariant:
  assumes "storeInvariant db"
  shows "storeInvariant (snd (execute (spTaskCreate now p) db))"
  using execute_spTaskCreate_store [of now p db] assms
    storeInvariant_identTask [OF assms] storeInvariant_insert [OF assms]
  by auto


lemma storeInvariant_deleted:
  assumes i: "storeInvariant db"
  shows "storeInvariant (db\<lparr>tblTask :=
            map (\<lambda>t. if h t then t\<lparr>deleted := True, dateModified := now\<rparr> else t)
              (tblTask db)\<rparr>)"
proof -
  let ?f = "\<lambda>t. if h t then t\<lparr>deleted := True, dateModified := now\<rparr> else t"
  have ids: "map idTask (map ?f (tblTask db)) = map idTask (tblTask db)" by simp
  have keep: "?f t = t" if "\<not> deleted (?f t)" for t using that by (simp split: if_splits)
  have "\<not> uqTask_Account_User_Title_conflict (map ?f (tblTask db)) (?f t)"
    if t: "t \<in> set (tblTask db)" for t
  proof
    assume c: "uqTask_Account_User_Title_conflict (map ?f (tblTask db)) (?f t)"
    then have d: "\<not> deleted (?f t)" by (simp add: uqTask_Account_User_Title_conflict_def)
    from c obtain t2 where t2: "t2 \<in> set (tblTask db)" "idTask (?f t2) \<noteq> idTask (?f t)"
      "\<not> deleted (?f t2)" "idAccount (?f t2) = idAccount (?f t)" "idUser (?f t2) = idUser (?f t)"
      "strEq (title (?f t2)) (title (?f t))"
      unfolding uqTask_Account_User_Title_conflict_def by auto
    have e: "?f t = t" "?f t2 = t2" using keep [OF d] keep [OF t2(3)] by simp_all
    have "uqTask_Account_User_Title_conflict (tblTask db) t"
      using uq_conflict_sym [of t2 t "tblTask db"] t2 d unfolding e by simp
    then show False using i t by (simp add: storeInvariant_def uqTask_Account_User_Title_def)
  qed
  then have "uqTask_Account_User_Title (map ?f (tblTask db))"
    unfolding uqTask_Account_User_Title_def set_map by blast
  moreover have "\<forall>t \<in> set (map ?f (tblTask db)). idTask t \<le> identTask db"
    using i by (auto simp: storeInvariant_def)
  ultimately show ?thesis using i ids by (simp add: storeInvariant_def del: map_map)
qed

lemma spTaskDelete_storeInvariant:
  assumes "storeInvariant db"
  shows "storeInvariant (snd (execute (spTaskDelete now p) db))"
  using assms storeInvariant_deleted [OF assms]
  by (simp add: execute_spTaskDelete)


lemma UPDATE_task_cases:
  fixes p now
  defines "hit \<equiv> ownTask (u_idTask p) (u_idAccount p) (u_idUser p)"
    and "upd \<equiv> (\<lambda>t. t\<lparr>title := the (u_title p),
                        description := the (u_description p),
                        priority := the (u_priority p),
                        dueDate := u_dueDate p,
                        status := the (u_status p),
                        dateModified := now\<rparr>)"
  shows "(\<exists>e. UPDATE_task now p s = Inl (e, s)) \<or> UPDATE_task now p s = Inr s \<or>
     (UPDATE_task now p s =
        Inr (s\<lparr>tables := (tables s)\<lparr>tblTask :=
               map (\<lambda>t. if hit t then upd t else t) (tblTask (tables s))\<rparr>\<rparr>) \<and>
      (\<forall>t \<in> set (tblTask (tables s)). hit t \<longrightarrow>
         \<not> uqTask_Account_User_Title_conflict
             (map (\<lambda>t. if hit t then upd t else t) (tblTask (tables s))) (upd t)))"
  unfolding hit_def upd_def by (simp add: UPDATE_task_def Let_def)

lemma storeInvariant_updated:
  assumes i: "storeInvariant db"
    and h: "\<And>t. hit t \<Longrightarrow> \<not> deleted t"
    and k: "\<And>t. idTask (upd t) = idTask t \<and> idAccount (upd t) = idAccount t \<and>
        idUser (upd t) = idUser t \<and> deleted (upd t) = deleted t"
    and c: "\<forall>t \<in> set (tblTask db). hit t \<longrightarrow>
         \<not> uqTask_Account_User_Title_conflict
             (map (\<lambda>t. if hit t then upd t else t) (tblTask db)) (upd t)"
  shows "storeInvariant (db\<lparr>tblTask := map (\<lambda>t. if hit t then upd t else t) (tblTask db)\<rparr>)"
proof -
  let ?f = "\<lambda>t. if hit t then upd t else t"
  let ?rows = "map ?f (tblTask db)"
  have ids: "map idTask ?rows = map idTask (tblTask db)" using k by simp
  have nc: "\<not> uqTask_Account_User_Title_conflict ?rows (?f t)" if t: "t \<in> set (tblTask db)" for t
  proof (cases "hit t")
    case True
    then show ?thesis using c t by simp
  next
    case False
    show ?thesis
    proof
      assume "uqTask_Account_User_Title_conflict ?rows (?f t)"
      then have cf: "uqTask_Account_User_Title_conflict ?rows t" using False by simp
      then have d: "\<not> deleted t" by (simp add: uqTask_Account_User_Title_conflict_def)
      from cf obtain t2 where t2: "t2 \<in> set (tblTask db)" "idTask (?f t2) \<noteq> idTask t"
        "\<not> deleted (?f t2)" "idAccount (?f t2) = idAccount t" "idUser (?f t2) = idUser t"
        "strEq (title (?f t2)) (title t)"
        unfolding uqTask_Account_User_Title_conflict_def by auto
      show False
      proof (cases "hit t2")
        case True
        have m: "t \<in> set ?rows" using t False by force
        have "strEq (title t) (title (upd t2))" using t2(6) True by (simp add: strEq_def)
        then have "uqTask_Account_User_Title_conflict ?rows (upd t2)"
          using uq_conflict_sym [of t "upd t2" ?rows] t2 True d m by simp
        then show False using c t2(1) True by simp
      next
        case False
        then have "uqTask_Account_User_Title_conflict (tblTask db) t"
          using uq_conflict_sym [of t2 t "tblTask db"] t2 d by simp
        then show False using i t by (simp add: storeInvariant_def uqTask_Account_User_Title_def)
      qed
    qed
  qed
  then have "uqTask_Account_User_Title ?rows"
    unfolding uqTask_Account_User_Title_def set_map by blast
  moreover have "\<forall>t \<in> set ?rows. idTask t \<le> identTask db"
    using i k by (auto simp: storeInvariant_def)
  ultimately show ?thesis using i ids by (simp add: storeInvariant_def del: map_map)
qed

lemma updateTran_store:
  assumes t: "trancount s = 0" and i: "storeInvariant (tables s)"
    and r: "r = TRY_CATCH
        (block [BEGIN_TRAN, UPDATE_task now p, SELECT_idTask (\<lambda>s. u_idTask p), COMMIT_TRAN])
        (\<lambda>e. block [ROLLBACK_TRAN, RETHROW e]) s"
  shows "case r of Inl (e, s') \<Rightarrow> storeInvariant (tables s') | Inr s' \<Rightarrow> storeInvariant (tables s')"
proof -
  let ?s1 = "s\<lparr>saved := Some (tables s), trancount := 1, tranlog := tranlog s @ [BeginTran]\<rparr>"
  let ?hit = "ownTask (u_idTask p) (u_idAccount p) (u_idUser p)"
  let ?upd = "\<lambda>t. t\<lparr>title := the (u_title p),
                        description := the (u_description p),
                        priority := the (u_priority p),
                        dueDate := u_dueDate p,
                        status := the (u_status p),
                        dateModified := now\<rparr>"
  have b: "BEGIN_TRAN s = Inr ?s1" using t by (simp add: BEGIN_TRAN_def)
  have inv: "storeInvariant (tables s\<lparr>identTask := identTask (tables s)\<rparr>)" using i by simp
  from UPDATE_task_cases [of now p ?s1]
  consider (fail) e where "UPDATE_task now p ?s1 = Inl (e, ?s1)"
    | (none) "UPDATE_task now p ?s1 = Inr ?s1"
    | (ok) "UPDATE_task now p ?s1 =
        Inr (?s1\<lparr>tables := (tables ?s1)\<lparr>tblTask :=
               map (\<lambda>t. if ?hit t then ?upd t else t) (tblTask (tables ?s1))\<rparr>\<rparr>)"
      "\<forall>t \<in> set (tblTask (tables ?s1)). ?hit t \<longrightarrow>
         \<not> uqTask_Account_User_Title_conflict
             (map (\<lambda>t. if ?hit t then ?upd t else t) (tblTask (tables ?s1))) (?upd t)"
    by blast
  then show ?thesis
  proof cases
    case (fail e)
    then show ?thesis using b inv
      by (simp add: r TRY_CATCH_def ROLLBACK_TRAN_def RETHROW_def)
  next
    case none
    then show ?thesis using b i
      by (simp add: r TRY_CATCH_def SELECT_idTask_def COMMIT_TRAN_def)
  next
    case ok
    have "storeInvariant ((tables s)\<lparr>tblTask :=
        map (\<lambda>t. if ?hit t then ?upd t else t) (tblTask (tables s))\<rparr>)"
      using ok(2) by (intro storeInvariant_updated [OF i]) (simp_all add: ownTask_def)
    then show ?thesis using b ok(1)
      by (simp add: r TRY_CATCH_def SELECT_idTask_def COMMIT_TRAN_def)
  qed
qed

lemma spTaskUpdate_storeInvariant:
  assumes "storeInvariant db"
  shows "storeInvariant (snd (execute (spTaskUpdate now p) db))"
proof -
  have t: "trancount (openSession db) = 0" and i: "storeInvariant (tables (openSession db))"
    using assms by (simp_all add: openSession_simps)
  show ?thesis
    using updateTran_store [OF t i refl, of now p] assms
    by (auto simp: execute_def spTaskUpdate_unfold openSession_simps split: sum.splits)
qed


lemma storeInvariant_examples: "storeInvariant exampleEmptyStore" "storeInvariant exampleStore"
  by (simp_all add: storeInvariant_def uqTask_Account_User_Title_def
      uqTask_Account_User_Title_conflict_def exampleEmptyStore_def example_simps)

end
